theory Spec2Isabelle
  imports Complex_Main "HOL-Library.AList" "HOL-Library.List_Lexorder" "HOL-Library.Word"
begin

section \<open>Messages of the activity file\<close>

text \<open>
  The script \<^verbatim>\<open>myWhoosh2Garmin.py\<close> reads the messages of a FIT file through the
  \<^verbatim>\<open>fit_tool\<close> library and tells them apart with \<^verbatim>\<open>isinstance\<close>. The message classes
  are disjoint, so the class of a message is a tag. A message carries a table from field
  name to value; a field that is not in the table is the one \<^verbatim>\<open>getattr(message, name, None)\<close>
  answers \<^verbatim>\<open>None\<close> for. The table is an association list, which keeps the order of the
  fields. The numeric samples the script aggregates are annotated \<^verbatim>\<open>List[int]\<close>;
  field values are Python integers.
\<close>

datatype message_kind =
  FileCreatorMessage | RecordMessage | LapMessage | SessionMessage | OtherMessage

record message =
  kind :: message_kind
  field_table :: "(string \<times> int) list"

definition getattr :: "message \<Rightarrow> string \<Rightarrow> int option" where
  "getattr m name = map_of (field_table m) name"

definition setattr :: "message \<Rightarrow> string \<Rightarrow> int \<Rightarrow> message" where
  "setattr m name val = m\<lparr>field_table := AList.update name val (field_table m)\<rparr>"

definition remove_field :: "message \<Rightarrow> string \<Rightarrow> message" where
  "remove_field m field_id = m\<lparr>field_table := AList.delete field_id (field_table m)\<rparr>"

definition RecordTemperatureField_ID :: string where
  "RecordTemperatureField_ID = ''temperature''"

text \<open>\<^verbatim>\<open>SessionMessage()\<close>: a fresh Session with no field set.\<close>

definition new_SessionMessage :: message where
  "new_SessionMessage = \<lparr>kind = SessionMessage, field_table = []\<rparr>"

section \<open>Averages and the window lists\<close>

text \<open>
  \<^verbatim>\<open>calculate_avg\<close> returns a Python float. The model computes with exact rationals: for
  integer samples whose sum stays below \<open>2 ^ 53\<close> the double-precision quotient and the
  exact quotient truncate to the same integer. \<^verbatim>\<open>int(x)\<close> on a float truncates toward zero.
\<close>

definition calculate_avg :: "int list \<Rightarrow> rat" where
  "calculate_avg values_list =
     (if values_list \<noteq> [] then of_int (sum_list values_list) / of_nat (length values_list)
      else 0)"

definition py_int :: "rat \<Rightarrow> int" where
  "py_int x = (if 0 \<le> x then \<lfloor>x\<rfloor> else \<lceil>x\<rceil>)"

text \<open>\<^verbatim>\<open>value if value else 0\<close>: \<^verbatim>\<open>None\<close> and \<^verbatim>\<open>0\<close> are the falsy values.\<close>

definition append_value :: "int list \<Rightarrow> message \<Rightarrow> string \<Rightarrow> int list" where
  "append_value values m field_name =
     (let value = getattr m field_name
      in values @ [case value of None \<Rightarrow> 0 | Some v \<Rightarrow> (if v \<noteq> 0 then v else 0)])"

definition reset_values :: "int list \<times> int list \<times> int list \<times> int list" where
  "reset_values = ([], [], [], [])"

section \<open>The rewrite loop of \<^verbatim>\<open>cleanup_fit_file\<close>\<close>

record cleanup_state =
  lap_values :: "int list"
  cadence_values :: "int list"
  power_values :: "int list"
  heart_rate_values :: "int list"
  builder :: "message list"

definition initial_state :: cleanup_state where
  "initial_state =
     (case reset_values of (l, c, p, h) \<Rightarrow>
        \<lparr>lap_values = l, cadence_values = c, power_values = p, heart_rate_values = h,
         builder = []\<rparr>)"

definition SESSION_COPY_FIELDS :: "string list" where
  "SESSION_COPY_FIELDS =
     [''message_index'', ''timestamp'', ''start_time'', ''sport'', ''sub_sport'', ''event'',
      ''event_type'', ''first_lap_index'', ''num_laps'', ''total_elapsed_time'',
      ''total_timer_time'', ''total_distance'', ''total_calories'', ''avg_speed'',
      ''max_speed'']"

text \<open>The ten \<^verbatim>\<open>append_value(lap_values, message, ...)\<close> calls, in the order of the source.\<close>

definition LAP_FIELDS :: "string list" where
  "LAP_FIELDS =
     [''start_time'', ''total_elapsed_time'', ''total_distance'', ''avg_speed'', ''max_speed'',
      ''avg_heart_rate'', ''max_heart_rate'', ''avg_cadence'', ''max_cadence'',
      ''total_calories'']"

definition collect_lap :: "int list \<Rightarrow> message \<Rightarrow> int list" where
  "collect_lap values m = foldl (\<lambda>vs name. append_value vs m name) values LAP_FIELDS"

text \<open>The loop \<^verbatim>\<open>for name in SESSION_COPY_FIELDS\<close> over the fresh Session.\<close>

definition copy_fields :: "message \<Rightarrow> message \<Rightarrow> string list \<Rightarrow> message" where
  "copy_fields new_session m names =
     foldl (\<lambda>new name. case getattr m name of None \<Rightarrow> new | Some val \<Rightarrow> setattr new name val)
       new_session names"

definition set_avg :: "message \<Rightarrow> message \<Rightarrow> string \<Rightarrow> int list \<Rightarrow> message" where
  "set_avg new_session m name values =
     (case getattr m name of
        None \<Rightarrow> setattr new_session name (py_int (calculate_avg values))
      | Some v \<Rightarrow> setattr new_session name v)"

definition build_session :: "cleanup_state \<Rightarrow> message \<Rightarrow> message" where
  "build_session st m =
     (let new_session = copy_fields new_SessionMessage m SESSION_COPY_FIELDS;
          new_session = set_avg new_session m ''avg_cadence'' (cadence_values st);
          new_session = set_avg new_session m ''avg_power'' (power_values st);
          new_session = set_avg new_session m ''avg_heart_rate'' (heart_rate_values st)
      in new_session)"

text \<open>One iteration of \<^verbatim>\<open>for record in fit_file.records\<close>.\<close>

definition process_message :: "cleanup_state \<Rightarrow> message \<Rightarrow> cleanup_state" where
  "process_message st0 m =
     (let st = (if kind m = LapMessage
                then st0\<lparr>lap_values := collect_lap (lap_values st0) m\<rparr> else st0)
      in if kind m = RecordMessage then
           (let m' = remove_field m RecordTemperatureField_ID
            in st\<lparr>cadence_values := append_value (cadence_values st) m' ''cadence'',
                  power_values := append_value (power_values st) m' ''power'',
                  heart_rate_values := append_value (heart_rate_values st) m' ''heart_rate'',
                  builder := builder st @ [m']\<rparr>)
         else if kind m = SessionMessage then
           (let new_session = build_session st m
            in (case reset_values of (l, c, p, h) \<Rightarrow>
                  st\<lparr>lap_values := l, cadence_values := c, power_values := p,
                     heart_rate_values := h, builder := builder st @ [new_session]\<rparr>))
         else st\<lparr>builder := builder st @ [m]\<rparr>)"

definition process_records :: "cleanup_state \<Rightarrow> message list \<Rightarrow> cleanup_state" where
  "process_records st msgs = foldl process_message st msgs"

text \<open>The messages handed to the builder for a decoded file, in order.\<close>

definition cleanup_messages :: "message list \<Rightarrow> message list" where
  "cleanup_messages msgs = builder (process_records initial_state msgs)"


section \<open>Specification-side notions\<close>

text \<open>
  The message the loop hands to the builder for an input message, given the state the
  loop is in when it reaches it.
\<close>

definition emitted :: "cleanup_state \<Rightarrow> message \<Rightarrow> message" where
  "emitted st m =
     (if kind m = RecordMessage then remove_field m RecordTemperatureField_ID
      else if kind m = SessionMessage then build_session st m
      else m)"

text \<open>The messages seen since the last Session boundary (or since the start of the stream).\<close>

definition since_last_session :: "message list \<Rightarrow> message list" where
  "since_last_session msgs = rev (takeWhile (\<lambda>m. kind m \<noteq> SessionMessage) (rev msgs))"

text \<open>A field's sample, with 0 for an absent field.\<close>

definition sample :: "string \<Rightarrow> message \<Rightarrow> int" where
  "sample name m = (case getattr m name of None \<Rightarrow> 0 | Some v \<Rightarrow> v)"

text \<open>The window list of a Record field: one sample per Record since the last Session.\<close>

definition window :: "string \<Rightarrow> message list \<Rightarrow> int list" where
  "window name msgs =
     map (sample name) (filter (\<lambda>m. kind m = RecordMessage) (since_last_session msgs))"

text \<open>The arithmetic mean truncated toward zero, in integer arithmetic; 0 for no samples.\<close>

definition mean_truncated :: "int list \<Rightarrow> int" where
  "mean_truncated xs =
     (if xs = [] then 0
      else sgn (sum_list xs) * (\<bar>sum_list xs\<bar> div int (length xs)))"

text \<open>
  A ride of two windows: a FileCreator, three Records (one with a temperature) and a Lap,
  a Session without averages, then one more Record and a Session that brings its own
  average power and cadence.
\<close>

definition scenario :: "message list" where
  "scenario =
     [\<lparr>kind = FileCreatorMessage, field_table = [(''software_version'', 385)]\<rparr>,
      \<lparr>kind = RecordMessage,
       field_table = [(''power'', 100), (''cadence'', 80), (''heart_rate'', 120)]\<rparr>,
      \<lparr>kind = LapMessage, field_table = [(''start_time'', 1000), (''total_calories'', 200)]\<rparr>,
      \<lparr>kind = RecordMessage,
       field_table = [(''power'', 150), (''temperature'', 21), (''cadence'', 90),
                      (''heart_rate'', 130)]\<rparr>,
      \<lparr>kind = RecordMessage,
       field_table = [(''power'', 200), (''cadence'', 100), (''heart_rate'', 140)]\<rparr>,
      \<lparr>kind = SessionMessage,
       field_table = [(''timestamp'', 5000), (''sport'', 2), (''total_work'', 90000)]\<rparr>,
      \<lparr>kind = RecordMessage, field_table = [(''power'', 50), (''heart_rate'', 99)]\<rparr>,
      \<lparr>kind = SessionMessage,
       field_table = [(''timestamp'', 6000), (''avg_power'', 0), (''avg_cadence'', 77)]\<rparr>]"

section \<open>Choosing the activity file\<close>

text \<open>
  A Python \<^verbatim>\<open>str\<close> is a sequence of Unicode code points, and so is a file name here.
  \<^verbatim>\<open>get_most_recent_fit_file\<close> sees a directory through \<^verbatim>\<open>glob\<close>: a list of entries in
  the order the operating system enumerates them. An entry has a name and a modification
  time. A path is the list of its components.
\<close>

type_synonym uchar = nat

type_synonym ustring = "uchar list"

type_synonym path = "ustring list"

definition ascii :: "string \<Rightarrow> ustring" where
  "ascii s = map of_char s"

record dir_entry =
  entry_name :: ustring
  entry_mtime :: nat

text \<open>
  What the script takes from the platform it runs on: whether \<^verbatim>\<open>os.name\<close> is \<^verbatim>\<open>"posix"\<close>
  (the other system it supports is \<^verbatim>\<open>"nt"\<close>, where \<^verbatim>\<open>pathlib\<close> matches names without
  regard to case), and two tables of the Unicode database: the lower-case form of a code
  point, and the value of a code point that is a decimal digit, which is what \<^verbatim>\<open>\d\<close>
  matches and \<^verbatim>\<open>int\<close> reads.
\<close>

record platform =
  posix :: bool
  lower :: "uchar \<Rightarrow> uchar"
  digit_value :: "uchar \<Rightarrow> nat option"

definition normcase :: "platform \<Rightarrow> ustring \<Rightarrow> ustring" where
  "normcase pf s = (if posix pf then s else map (lower pf) s)"

text \<open>
  \<^verbatim>\<open>glob("MyNewActivity-*.fit")\<close>: the star matches any run of characters, the empty one
  too; the literal parts are compared as the platform compares names.
\<close>

definition glob_match :: "platform \<Rightarrow> ustring \<Rightarrow> bool" where
  "glob_match pf n =
     (let p = normcase pf (ascii ''MyNewActivity-''); s = normcase pf (ascii ''.fit'');
          m = normcase pf n
      in length p + length s \<le> length m \<and> take (length p) m = p \<and>
         drop (length m - length s) m = s)"

text \<open>\<^verbatim>\<open>Path.stem\<close>: the name up to its last dot, unless that dot is first or last.\<close>

definition stem :: "ustring \<Rightarrow> ustring" where
  "stem n =
     (if 46 \<in> set n
      then (let i = length n - length (takeWhile (\<lambda>c. c \<noteq> 46) (rev n)) - 1
            in if 0 < i \<and> i < length n - 1 then take i n else n)
      else n)"

text \<open>\<^verbatim>\<open>s.split(sep)[-1]\<close>.\<close>

definition split_last :: "'a \<Rightarrow> 'a list \<Rightarrow> 'a list" where
  "split_last sep s = rev (takeWhile (\<lambda>c. c \<noteq> sep) (rev s))"

definition is_digit :: "platform \<Rightarrow> uchar \<Rightarrow> bool" where
  "is_digit pf c = (digit_value pf c \<noteq> None)"

text \<open>\<^verbatim>\<open>re.findall(r'(\d+)', s)\<close>: the maximal runs of digits, left to right.\<close>

fun findall_digits :: "platform \<Rightarrow> ustring \<Rightarrow> ustring \<Rightarrow> ustring list" where
  "findall_digits pf cur [] = (if cur = [] then [] else [cur])"
| "findall_digits pf cur (c # cs) =
     (if is_digit pf c then findall_digits pf (cur @ [c]) cs
      else (if cur = [] then [] else [cur]) @ findall_digits pf [] cs)"

text \<open>\<^verbatim>\<open>int(s)\<close> on a run of decimal digits.\<close>

definition int_of_digits :: "platform \<Rightarrow> ustring \<Rightarrow> nat" where
  "int_of_digits pf ds =
     foldl (\<lambda>a c. 10 * a + (case digit_value pf c of Some d \<Rightarrow> d | None \<Rightarrow> 0)) 0 ds"

definition extract_version :: "platform \<Rightarrow> ustring \<Rightarrow> nat list" where
  "extract_version pf file_name =
     (let version_str = split_last 45 (stem file_name);
          numbers = findall_digits pf [] version_str
      in if numbers \<noteq> [] then map (int_of_digits pf) numbers else [0])"

text \<open>
  \<^verbatim>\<open>sorted(xs, key=key, reverse=True)\<close>: a stable sort in descending order; elements with
  equal keys keep the order they came in. Tuples of integers compare lexicographically, a
  proper prefix before its extensions, as lists do here.
\<close>

definition sorted_reverse :: "('a \<Rightarrow> 'k::linorder) \<Rightarrow> 'a list \<Rightarrow> 'a list" where
  "sorted_reverse key xs = rev (sort_key key (rev xs))"

definition get_most_recent_fit_file :: "platform \<Rightarrow> dir_entry list \<Rightarrow> dir_entry option" where
  "get_most_recent_fit_file pf entries =
     (let fit_files = filter (\<lambda>e. glob_match pf (entry_name e)) entries
      in if fit_files = [] then None
         else (let fit_files = sorted_reverse (\<lambda>e. extract_version pf (entry_name e)) fit_files
               in Some (hd fit_files)))"

text \<open>
  Specification side: the decimal numeral of a number, a version written as numbers
  separated by dots, and the number a row of digit values spells.
\<close>

fun show_nat :: "nat \<Rightarrow> ustring" where
  "show_nat n = (if n < 10 then [48 + n] else show_nat (n div 10) @ [48 + n mod 10])"

fun dotted :: "nat list \<Rightarrow> ustring" where
  "dotted [] = []"
| "dotted [n] = show_nat n"
| "dotted (n # m # ns) = show_nat n @ [46] @ dotted (m # ns)"

definition positional :: "nat list \<Rightarrow> nat" where
  "positional ds = (\<Sum>i < length ds. ds ! i * 10 ^ (length ds - Suc i))"

text \<open>
  Two platforms: POSIX and Windows, each with the ASCII letters and digits and the
  Arabic-Indic digits of the Unicode tables.
\<close>

definition demo_lower :: "uchar \<Rightarrow> uchar" where
  "demo_lower c = (if 65 \<le> c \<and> c \<le> 90 then c + 32 else c)"

definition demo_digit :: "uchar \<Rightarrow> nat option" where
  "demo_digit c =
     (if 48 \<le> c \<and> c \<le> 57 then Some (c - 48)
      else if 1632 \<le> c \<and> c \<le> 1641 then Some (c - 1632) else None)"

definition posix_platform :: platform where
  "posix_platform = \<lparr>posix = True, lower = demo_lower, digit_value = demo_digit\<rparr>"

definition nt_platform :: platform where
  "nt_platform = \<lparr>posix = False, lower = demo_lower, digit_value = demo_digit\<rparr>"

text \<open>The directory of the unit test.\<close>

definition listing_demo :: "dir_entry list" where
  "listing_demo =
     [\<lparr>entry_name = ascii ''MyNewActivity-3.8.5.fit'', entry_mtime = 300\<rparr>,
      \<lparr>entry_name = ascii ''MyNewActivity-3.7.2.fit'', entry_mtime = 400\<rparr>,
      \<lparr>entry_name = ascii ''MyNewActivity-3.9.1.fit'', entry_mtime = 100\<rparr>,
      \<lparr>entry_name = ascii ''other_file.fit'', entry_mtime = 900\<rparr>]"

text \<open>
  A directory with a two-digit component, a suffix after a second hyphen and a name in
  another case; the same directory with other modification times; and a name whose version,
  7.2, is written in Arabic-Indic digits.
\<close>

definition listing_versions :: "dir_entry list" where
  "listing_versions =
     [\<lparr>entry_name = ascii ''MyNewActivity-3.9.1.fit'', entry_mtime = 40\<rparr>,
      \<lparr>entry_name = ascii ''MyNewActivity-3.10.0.fit'', entry_mtime = 30\<rparr>,
      \<lparr>entry_name = ascii ''MyNewActivity-4.0-rc1.fit'', entry_mtime = 20\<rparr>,
      \<lparr>entry_name = ascii ''mynewactivity-9.FIT'', entry_mtime = 10\<rparr>]"

definition listing_versions_touched :: "dir_entry list" where
  "listing_versions_touched =
     [\<lparr>entry_name = ascii ''MyNewActivity-3.9.1.fit'', entry_mtime = 1\<rparr>,
      \<lparr>entry_name = ascii ''MyNewActivity-3.10.0.fit'', entry_mtime = 2\<rparr>,
      \<lparr>entry_name = ascii ''MyNewActivity-4.0-rc1.fit'', entry_mtime = 3\<rparr>,
      \<lparr>entry_name = ascii ''mynewactivity-9.FIT'', entry_mtime = 4\<rparr>]"

definition arabic_indic_name :: ustring where
  "arabic_indic_name = ascii ''MyNewActivity-'' @ [1639, 46, 1634] @ ascii ''.fit''"

section \<open>Files, the codec and the callers\<close>

text \<open>
  The FIT codec is the \<^verbatim>\<open>fit_tool\<close> library, which the script only calls:
  \<^verbatim>\<open>FitFile.from_file\<close> decodes a whole file into its records before the loop starts,
  \<^verbatim>\<open>builder.add\<close> and \<^verbatim>\<open>builder.build()\<close> make a \<^verbatim>\<open>FitFile\<close> object of the collected
  messages, and \<^verbatim>\<open>to_file\<close> of that object opens the output path and serialises into it.
  The three are parameters here, each answering a result or one of the error kinds of the
  specification; a serialisation that fails also tells which bytes had reached the file.
  A file system maps a directory to its entries and a regular file to its bytes;
  \<^verbatim>\<open>is_dir\<close> holds of the paths that have entries.
\<close>

type_synonym bytes = "8 word list"

datatype decode_error =
  MalformedHeader | Truncated | UnknownLocalType | UnsupportedFeature | ChecksumMismatch

datatype encode_error = DefinitionLimitExceeded | InternalInconsistency

datatype exn = DecodeError decode_error | EncodeError encode_error | OSError

record filesystem =
  listing :: "path \<Rightarrow> dir_entry list option"
  contents :: "path \<Rightarrow> bytes option"

definition path_exists :: "filesystem \<Rightarrow> path \<Rightarrow> bool" where
  "path_exists fs p = (listing fs p \<noteq> None \<or> contents fs p \<noteq> None)"

definition joinpath :: "path \<Rightarrow> ustring \<Rightarrow> path" where
  "joinpath d n = d @ [n]"

definition dirname :: "path \<Rightarrow> path" where
  "dirname p = butlast p"

record codec =
  decode :: "bytes \<Rightarrow> decode_error + message list"
  build :: "message list \<Rightarrow> encode_error + message list"
  to_bytes :: "message list \<Rightarrow> (encode_error \<times> bytes) + bytes"

text \<open>\<^verbatim>\<open>FitFile.from_file(path)\<close>: read the file, then decode it.\<close>

definition from_file :: "codec \<Rightarrow> filesystem \<Rightarrow> path \<Rightarrow> exn + message list" where
  "from_file cd fs p =
     (case contents fs p of
        None \<Rightarrow> Inl OSError
      | Some bs \<Rightarrow> (case decode cd bs of Inl e \<Rightarrow> Inl (DecodeError e) | Inr msgs \<Rightarrow> Inr msgs))"

text \<open>
  \<^verbatim>\<open>fit_file.to_file(path)\<close>: open the path for writing, which fails when its parent is
  not a directory or the path is one, and which creates the file or empties it; then
  serialise into it. An exception raised by the serialisation finds the file there, with
  what had been written. The answer is the exception, if any, and the file system.
\<close>

definition to_file ::
  "codec \<Rightarrow> filesystem \<Rightarrow> path \<Rightarrow> message list \<Rightarrow> exn option \<times> filesystem"
where
  "to_file cd fs p fit_file =
     (if listing fs (dirname p) = None \<or> listing fs p \<noteq> None then (Some OSError, fs)
      else (case to_bytes cd fit_file of
              Inl (e, written) \<Rightarrow>
                (Some (EncodeError e), fs\<lparr>contents := (contents fs)(p \<mapsto> written)\<rparr>)
            | Inr bs \<Rightarrow> (None, fs\<lparr>contents := (contents fs)(p \<mapsto> bs)\<rparr>)))"

text \<open>
  \<^verbatim>\<open>cleanup_fit_file\<close> has no handler of its own: an exception of the codec leaves it at
  once. Its last statement is \<^verbatim>\<open>builder.build().to_file(...)\<close>, and nothing removes the
  output file after an exception.
\<close>

definition cleanup_fit_file ::
  "codec \<Rightarrow> filesystem \<Rightarrow> path \<Rightarrow> path \<Rightarrow> exn option \<times> filesystem"
where
  "cleanup_fit_file cd fs fit_file_path new_file_path =
     (case from_file cd fs fit_file_path of
        Inl e \<Rightarrow> (Some e, fs)
      | Inr records \<Rightarrow>
          (case build cd (cleanup_messages records) of
             Inl e \<Rightarrow> (Some (EncodeError e), fs)
           | Inr fit_file \<Rightarrow> to_file cd fs new_file_path fit_file))"

text \<open>The timestamp of \<^verbatim>\<open>datetime.now()\<close> is an argument.\<close>

definition generate_new_filename :: "ustring \<Rightarrow> ustring \<Rightarrow> ustring" where
  "generate_new_filename timestamp fit_file =
     stem fit_file @ ascii ''_'' @ timestamp @ ascii ''.fit''"

text \<open>
  \<^verbatim>\<open>cleanup_and_save_fit_file\<close> answers the new path, or \<^verbatim>\<open>None\<close> after any of its early
  returns and after any exception of \<^verbatim>\<open>cleanup_fit_file\<close>. Log lines are not modelled.
\<close>

definition cleanup_and_save_fit_file ::
  "platform \<Rightarrow> codec \<Rightarrow> ustring \<Rightarrow> filesystem \<Rightarrow> path option \<Rightarrow> path option \<Rightarrow>
   path option \<times> filesystem"
where
  "cleanup_and_save_fit_file pf cd timestamp fs fitfile_location backup_location =
     (case fitfile_location of
        None \<Rightarrow> (None, fs)
      | Some location \<Rightarrow>
          (case listing fs location of
             None \<Rightarrow> (None, fs)
           | Some entries \<Rightarrow>
               (case get_most_recent_fit_file pf entries of
                  None \<Rightarrow> (None, fs)
                | Some fit_file \<Rightarrow>
                    (let new_filename = generate_new_filename timestamp (entry_name fit_file)
                     in case backup_location of
                          None \<Rightarrow> (None, fs)
                        | Some backup \<Rightarrow>
                            if \<not> path_exists fs backup then (None, fs)
                            else (let new_file_path = joinpath backup new_filename
                                  in case cleanup_fit_file cd fs
                                            (joinpath location (entry_name fit_file))
                                            new_file_path of
                                       (Some e, fs') \<Rightarrow> (None, fs')
                                     | (None, fs') \<Rightarrow> (Some new_file_path, fs'))))))"

text \<open>
  What \<^verbatim>\<open>garth.client.upload\<close> does: it returns, raises \<^verbatim>\<open>GarthHTTPError\<close>, or raises
  another \<^verbatim>\<open>Exception\<close>.
\<close>

datatype upload_outcome = Uploaded | Raises_GarthHTTPError | Raises_Exception

definition upload_fit_file_to_garmin ::
  "upload_outcome \<Rightarrow> filesystem \<Rightarrow> path option \<Rightarrow> bool"
where
  "upload_fit_file_to_garmin outcome fs new_file_path =
     (case new_file_path of
        None \<Rightarrow> False
      | Some p \<Rightarrow>
          if \<not> path_exists fs p then False
          else (case contents fs p of
                  None \<Rightarrow> False
                | Some f \<Rightarrow>
                    (case outcome of
                       Uploaded \<Rightarrow> True
                     | Raises_GarthHTTPError \<Rightarrow> False
                     | Raises_Exception \<Rightarrow> False)))"

text \<open>
  The collaborators \<^verbatim>\<open>main\<close> consults before the cleanup talk to pip, the operating
  system, a dialog and Garmin; \<^verbatim>\<open>main\<close> only tests what they return, which is what the
  environment records, next to the platform and the clock.
\<close>

record environment =
  os :: platform
  ensure_packages :: bool
  import_required_modules :: bool
  get_fitfile_location :: "path option"
  get_backup_path :: "path option"
  authenticate_to_garmin :: bool
  garth_upload :: upload_outcome
  fit_tool :: codec
  now :: ustring

definition main :: "environment \<Rightarrow> filesystem \<Rightarrow> int \<times> filesystem" where
  "main env fs =
     (if \<not> ensure_packages env then (1, fs)
      else if \<not> import_required_modules env then (1, fs)
      else case get_fitfile_location env of
             None \<Rightarrow> (1, fs)
           | Some fitfile_location \<Rightarrow>
               (case get_backup_path env of
                  None \<Rightarrow> (1, fs)
                | Some backup_location \<Rightarrow>
                    if \<not> authenticate_to_garmin env then (1, fs)
                    else (case cleanup_and_save_fit_file (os env) (fit_tool env) (now env) fs
                                 (Some fitfile_location) (Some backup_location) of
                            (None, fs') \<Rightarrow> (1, fs')
                          | (Some new_file_path, fs') \<Rightarrow>
                              (let uploaded = upload_fit_file_to_garmin (garth_upload env) fs'
                                                (Some new_file_path)
                               in (0, fs')))))"

text \<open>
  Three small codecs (one refuses short files, one fails in \<^verbatim>\<open>build\<close>, one fails while
  serialising, before its first byte), a directory with one readable activity file, and an
  environment.
\<close>

definition demo_codec :: codec where
  "demo_codec =
     \<lparr>decode = (\<lambda>bs. if length bs < 12 then Inl MalformedHeader else Inr scenario),
      build = (\<lambda>msgs. if 16 < length msgs then Inl DefinitionLimitExceeded else Inr msgs),
      to_bytes = (\<lambda>msgs. Inr [46, 70])\<rparr>"

definition strict_codec :: codec where
  "strict_codec =
     \<lparr>decode = (\<lambda>bs. Inr scenario), build = (\<lambda>msgs. Inl InternalInconsistency),
      to_bytes = (\<lambda>msgs. Inr [46, 70])\<rparr>"

definition late_codec :: codec where
  "late_codec =
     \<lparr>decode = (\<lambda>bs. Inr scenario), build = (\<lambda>msgs. Inr msgs),
      to_bytes = (\<lambda>msgs. Inl (InternalInconsistency, []))\<rparr>"

definition data_dir :: path where
  "data_dir = [ascii ''data'']"

definition backup_dir :: path where
  "backup_dir = [ascii ''backup'']"

definition demo_stamp :: ustring where
  "demo_stamp = ascii ''2024-01-02_030405''"

definition demo_output :: path where
  "demo_output = [ascii ''backup'', ascii ''MyNewActivity-3.9.1_2024-01-02_030405.fit'']"

definition demo_fs :: "bytes \<Rightarrow> filesystem" where
  "demo_fs bs =
     \<lparr>listing = (\<lambda>p. if p = data_dir then Some listing_demo
                      else if p = backup_dir then Some [] else None),
      contents = (\<lambda>p. if p = joinpath data_dir (ascii ''MyNewActivity-3.9.1.fit'')
                       then Some bs else None)\<rparr>"

definition demo_env :: environment where
  "demo_env =
     \<lparr>os = posix_platform, ensure_packages = True, import_required_modules = True,
      get_fitfile_location = Some data_dir, get_backup_path = Some backup_dir,
      authenticate_to_garmin = True, garth_upload = Raises_GarthHTTPError,
      fit_tool = demo_codec, now = demo_stamp\<rparr>"

definition demo_file :: bytes where
  "demo_file = [14, 16, 0, 0, 0, 0, 0, 0, 46, 70, 73, 84, 0, 0, 0, 0]"

section \<open>The decoder of the specification\<close>

text \<open>
  The decoder is \<^verbatim>\<open>FitFile.from_file\<close> of the \<^verbatim>\<open>fit_tool\<close> library, which the script
  calls and which is not part of its sources. The definitions of this section follow
  sections 3, 4.1, 4.2 and 6 of the specification: the record level of the decoder, from the
  record header byte to the decoded message.
\<close>

unbundle bit_operations_syntax

type_synonym byte = "8 word"

text \<open>
  Modelled from the spec: a 3-byte field descriptor of a Definition record (field id, size in
  bytes, base type code); the decoder is missing from the sources.
\<close>

record field_descriptor =
  field_id :: byte
  field_size :: nat
  base_type :: byte

text \<open>
  Modelled from the spec: the MessageDefinition of section 3 (local type slot, global message kind,
  byte order, ordered field list); the decoder is missing from the sources.
\<close>

record message_definition =
  local_type :: nat
  global_kind :: nat
  big_endian :: bool
  descriptors :: "field_descriptor list"

text \<open>
  Modelled from the spec: the Message Definition Registry of section 4.2, from local slot to the
  definition bound to it; the decoder is missing from the sources.
\<close>

type_synonym registry = "nat \<Rightarrow> message_definition option"

text \<open>
  Modelled from the spec: the FieldValue of section 3, absent or present with its scalar; the scalar
  is kept as the unsigned number its bytes spell. The decoder is missing from the sources.
\<close>

datatype field_value = Absent | Present nat

text \<open>
  Modelled from the spec: a decoded Message of section 3, a kind and a table from field identifier
  to value; the decoder is missing from the sources.
\<close>

record fit_message =
  message_class :: message_kind
  field_values :: "(byte \<times> field_value) list"

text \<open>
  Modelled from the spec: what the specification names without giving values, taken as parameters:
  the global message kinds of Record, Lap, Session and FileCreator, and the invalid sentinel of
  each base type at each width. The decoder is missing from the sources.
\<close>

record profile =
  classify :: "nat \<Rightarrow> message_kind"
  invalid_sentinel :: "byte \<Rightarrow> nat \<Rightarrow> byte list"

text \<open>
  Modelled from the spec: \<^verbatim>\<open>bind(slot, definition)\<close> of section 4.2, last write wins; the registry is
  missing from the sources.
\<close>

definition bind :: "registry \<Rightarrow> nat \<Rightarrow> message_definition \<Rightarrow> registry" where
  "bind reg slot d = reg(slot \<mapsto> d)"

text \<open>
  Modelled from the spec: \<^verbatim>\<open>lookup(slot)\<close> of section 4.2; the registry is missing from the sources.
\<close>

definition lookup :: "registry \<Rightarrow> nat \<Rightarrow> message_definition option" where
  "lookup reg slot = reg slot"

text \<open>
  Modelled from the spec: a multi-byte integer in little-endian or big-endian order (section 6);
  the decoder is missing from the sources.
\<close>

definition scalar :: "bool \<Rightarrow> byte list \<Rightarrow> nat" where
  "scalar big raw = foldr (\<lambda>b acc. unat b + 256 * acc) (if big then rev raw else raw) 0"

text \<open>
  Modelled from the spec: a field is Absent when its raw bytes equal the invalid sentinel of its
  base type (section 4.1); the decoder is missing from the sources.
\<close>

definition decode_field :: "profile \<Rightarrow> bool \<Rightarrow> field_descriptor \<Rightarrow> byte list \<Rightarrow> field_value" where
  "decode_field pf big d raw =
     (if raw = invalid_sentinel pf (base_type d) (field_size d) then Absent
      else Present (scalar big raw))"

text \<open>
  Modelled from the spec: the body of a Data record is the raw bytes of the fields, concatenated in
  the order and sizes of the bound definition (section 6); the decoder is missing from the
  sources.
\<close>

fun decode_fields ::
  "profile \<Rightarrow> bool \<Rightarrow> field_descriptor list \<Rightarrow> byte list \<Rightarrow> (byte \<times> field_value) list"
where
  "decode_fields pf big [] raw = []"
| "decode_fields pf big (d # ds) raw =
     (field_id d, decode_field pf big d (take (field_size d) raw)) #
       decode_fields pf big ds (drop (field_size d) raw)"

text \<open>
  Modelled from the spec: the field table is classified into a Message by its global message kind
  (section 4.1); the decoder is missing from the sources.
\<close>

definition decode_data :: "profile \<Rightarrow> message_definition \<Rightarrow> byte list \<Rightarrow> fit_message" where
  "decode_data pf d raw =
     \<lparr>message_class = classify pf (global_kind d),
      field_values = decode_fields pf (big_endian d) (descriptors d) raw\<rparr>"

text \<open>
  Modelled from the spec: the field descriptors of a Definition record, three bytes each
  (section 6); the decoder is missing from the sources.
\<close>

fun parse_descriptors :: "byte list \<Rightarrow> field_descriptor list" where
  "parse_descriptors (i # s # t # rest) =
     \<lparr>field_id = i, field_size = unat s, base_type = t\<rparr> # parse_descriptors rest"
| "parse_descriptors _ = []"

text \<open>
  Modelled from the spec: the body of a Definition record: byte-order flag (0 little, 1 big),
  2-byte global message kind, descriptors (section 6); the decoder is missing from the sources.
\<close>

definition parse_definition ::
  "nat \<Rightarrow> byte \<Rightarrow> byte \<Rightarrow> byte \<Rightarrow> byte list \<Rightarrow> message_definition"
where
  "parse_definition slot order k0 k1 raw =
     \<lparr>local_type = slot, global_kind = scalar (order = 1) [k0, k1], big_endian = (order = 1),
      descriptors = parse_descriptors raw\<rparr>"

text \<open>
  Modelled from the spec: the declared total field-byte length of a definition (section 4.1); the
  decoder is missing from the sources.
\<close>

definition total_size :: "message_definition \<Rightarrow> nat" where
  "total_size d = sum_list (map field_size (descriptors d))"

text \<open>
  Modelled from the spec: the record loop of section 4.1. Bit 7 of the record header is the
  unsupported compressed timestamp, bit 6 selects Definition or Data, bits 0 to 3 the local
  slot. A Definition record binds its slot; a Data record looks its slot up, fails with
  \<open>UnknownLocalType\<close> when nothing is bound, and reads exactly the declared length; fewer bytes
  than declared is \<open>Truncated\<close>. The decoder is missing from the sources.
\<close>

fun decode_records ::
  "profile \<Rightarrow> registry \<Rightarrow> byte list \<Rightarrow> decode_error + fit_message list"
where
  "decode_records pf reg [] = Inr []"
| "decode_records pf reg (h # rest) =
     (if bit h 7 then Inl UnsupportedFeature
      else if bit h 6 then
        (case rest of
           reserved # order # k0 # k1 # n # body \<Rightarrow>
             if length body < 3 * unat n then Inl Truncated
             else decode_records pf
                    (bind reg (unat (h AND 15))
                       (parse_definition (unat (h AND 15)) order k0 k1 (take (3 * unat n) body)))
                    (drop (3 * unat n) body)
         | _ \<Rightarrow> Inl Truncated)
      else
        (case lookup reg (unat (h AND 15)) of
           None \<Rightarrow> Inl UnknownLocalType
         | Some d \<Rightarrow>
             if length rest < total_size d then Inl Truncated
             else (case decode_records pf reg (drop (total_size d) rest) of
                     Inl e \<Rightarrow> Inl e
                   | Inr ms \<Rightarrow> Inr (decode_data pf d (take (total_size d) rest) # ms))))"

text \<open>A profile with the usual numbers of the four kinds and all-bits-set sentinels.\<close>

definition demo_profile :: profile where
  "demo_profile =
     \<lparr>classify = (\<lambda>k. if k = 20 then RecordMessage else if k = 19 then LapMessage
                       else if k = 18 then SessionMessage
                       else if k = 49 then FileCreatorMessage else OtherMessage),
      invalid_sentinel = (\<lambda>t n. replicate n 255)\<rparr>"

section \<open>Field tables\<close>

lemma getattr_setattr:
  "getattr (setattr m n v) k = (if k = n then Some v else getattr m k)"
  by (simp add: getattr_def setattr_def update_conv')

lemma kind_setattr: "kind (setattr m n v) = kind m"
  by (simp add: setattr_def)

lemma getattr_remove_field:
  "getattr (remove_field m f) k = (if k = f then None else getattr m k)"
  by (simp add: getattr_def remove_field_def delete_conv')

lemma kind_remove_field: "kind (remove_field m f) = kind m"
  by (simp add: remove_field_def)

lemma getattr_copy_fields:
  "getattr (copy_fields new m names) k =
     (if k \<in> set names \<and> getattr m k \<noteq> None then getattr m k else getattr new k)"
  unfolding copy_fields_def
  by (induction names arbitrary: new) (auto simp: getattr_setattr split: option.splits)

lemma kind_copy_fields: "kind (copy_fields new m names) = kind new"
  unfolding copy_fields_def
  by (induction names arbitrary: new) (auto simp: kind_setattr split: option.splits)

lemma getattr_set_avg:
  "getattr (set_avg new m n vs) k =
     (if k = n
      then (case getattr m n of None \<Rightarrow> Some (py_int (calculate_avg vs)) | Some v \<Rightarrow> Some v)
      else getattr new k)"
  by (simp add: set_avg_def getattr_setattr split: option.splits)

lemma kind_set_avg: "kind (set_avg new m n vs) = kind new"
  by (simp add: set_avg_def kind_setattr split: option.splits)

section \<open>The float average against integer arithmetic\<close>

lemma py_int_calculate_avg: "py_int (calculate_avg xs) = mean_truncated xs"
proof (cases "xs = []")
  case True
  then show ?thesis by (simp add: py_int_def calculate_avg_def mean_truncated_def)
next
  case False
  define s where "s = sum_list xs"
  define n where "n = int (length xs)"
  have n: "0 < n" using False by (simp add: n_def)
  have q: "calculate_avg xs = (of_int s :: rat) / of_int n"
    using False by (simp add: calculate_avg_def s_def n_def)
  have sg: "(0 \<le> (of_int s :: rat) / of_int n) = (0 \<le> s)"
    using n by (simp add: zero_le_divide_iff)
  show ?thesis
  proof (cases "0 \<le> s")
    case True
    then have "py_int (calculate_avg xs) = s div n"
      by (simp add: py_int_def q sg floor_divide_of_int_eq)
    moreover have "mean_truncated xs = s div n"
      using True False
      by (cases "s = 0") (simp_all add: mean_truncated_def s_def[symmetric] n_def[symmetric])
    ultimately show ?thesis by simp
  next
    case neg: False
    have "\<lceil>(of_int s :: rat) / of_int n\<rceil> = - \<lfloor>(of_int (- s) :: rat) / of_int n\<rfloor>"
      by (simp add: ceiling_def)
    also have "\<dots> = - ((- s) div n)"
      by (simp only: floor_divide_of_int_eq)
    finally have "py_int (calculate_avg xs) = - ((- s) div n)"
      using neg by (simp add: py_int_def q sg)
    moreover have "mean_truncated xs = - ((- s) div n)"
      using neg False by (simp add: mean_truncated_def s_def[symmetric] n_def[symmetric])
    ultimately show ?thesis by simp
  qed
qed

section \<open>The loop, message by message\<close>

lemma builder_process_message:
  "builder (process_message st m) = builder st @ [emitted st m]"
  by (simp add: process_message_def emitted_def reset_values_def Let_def build_session_def)

lemma process_records_snoc:
  "process_records st (msgs @ [m]) = process_message (process_records st msgs) m"
  by (simp add: process_records_def)

lemma length_builder_process_records:
  "length (builder (process_records st msgs)) = length (builder st) + length msgs"
  by (induction msgs rule: rev_induct)
     (simp_all add: process_records_snoc builder_process_message, simp add: process_records_def)

lemma process_records_take_Suc:
  "i < length msgs \<Longrightarrow>
   process_records st (take (Suc i) msgs) =
     process_message (process_records st (take i msgs)) (msgs ! i)"
  by (simp add: take_Suc_conv_app_nth process_records_snoc)

lemma builder_process_records_nth:
  "i < length msgs \<Longrightarrow>
   builder (process_records st msgs) ! (length (builder st) + i) =
     emitted (process_records st (take i msgs)) (msgs ! i)"
proof (induction msgs rule: rev_induct)
  case Nil
  then show ?case by simp
next
  case (snoc x xs)
  show ?case
  proof (cases "i < length xs")
    case True
    then show ?thesis
      using snoc.IH
      by (simp add: process_records_snoc builder_process_message nth_append
          length_builder_process_records)
  next
    case False
    with snoc.prems have "i = length xs" by simp
    then show ?thesis
      by (simp add: process_records_snoc builder_process_message nth_append
          length_builder_process_records)
  qed
qed

lemma builder_initial_state: "builder initial_state = []"
  by (simp add: initial_state_def reset_values_def)

lemma length_cleanup_messages: "length (cleanup_messages msgs) = length msgs"
  by (simp add: cleanup_messages_def length_builder_process_records builder_initial_state)

lemma cleanup_messages_nth:
  "i < length msgs \<Longrightarrow>
   cleanup_messages msgs ! i = emitted (process_records initial_state (take i msgs)) (msgs ! i)"
  using builder_process_records_nth [of i msgs initial_state]
  by (simp add: cleanup_messages_def builder_initial_state)

lemma cleanup_messages_take_Suc:
  "i < length msgs \<Longrightarrow>
   cleanup_messages (take (Suc i) msgs) =
     cleanup_messages (take i msgs) @
       [emitted (process_records initial_state (take i msgs)) (msgs ! i)]"
  by (simp add: cleanup_messages_def process_records_take_Suc builder_process_message)

section \<open>The window lists are the accumulators\<close>

lemma since_last_session_snoc:
  "since_last_session (msgs @ [m]) =
     (if kind m = SessionMessage then [] else since_last_session msgs @ [m])"
  by (simp add: since_last_session_def)

lemma window_snoc:
  "window name (msgs @ [m]) =
     (if kind m = SessionMessage then []
      else if kind m = RecordMessage then window name msgs @ [sample name m]
      else window name msgs)"
  by (simp add: window_def since_last_session_snoc)

lemma append_value_sample: "append_value vs m name = vs @ [sample name m]"
  by (simp add: append_value_def sample_def split: option.splits)

lemma sample_remove_field:
  "name \<noteq> f \<Longrightarrow> sample name (remove_field m f) = sample name m"
  by (simp add: sample_def getattr_remove_field)

lemma windows_process_records:
  "cadence_values (process_records initial_state msgs) = window ''cadence'' msgs \<and>
   power_values (process_records initial_state msgs) = window ''power'' msgs \<and>
   heart_rate_values (process_records initial_state msgs) = window ''heart_rate'' msgs"
proof (induction msgs rule: rev_induct)
  case Nil
  then show ?case
    by (simp add: process_records_def initial_state_def reset_values_def window_def
        since_last_session_def)
next
  case (snoc x xs)
  then show ?case
    by (simp add: process_records_snoc process_message_def window_snoc Let_def
        reset_values_def append_value_sample sample_remove_field RecordTemperatureField_ID_def)
qed

lemma getattr_build_session_avg:
  "getattr (build_session st m) ''avg_cadence'' =
     (case getattr m ''avg_cadence'' of
        None \<Rightarrow> Some (mean_truncated (cadence_values st)) | Some v \<Rightarrow> Some v)"
  "getattr (build_session st m) ''avg_power'' =
     (case getattr m ''avg_power'' of
        None \<Rightarrow> Some (mean_truncated (power_values st)) | Some v \<Rightarrow> Some v)"
  "getattr (build_session st m) ''avg_heart_rate'' =
     (case getattr m ''avg_heart_rate'' of
        None \<Rightarrow> Some (mean_truncated (heart_rate_values st)) | Some v \<Rightarrow> Some v)"
  by (simp_all add: build_session_def Let_def getattr_set_avg py_int_calculate_avg
      split: option.splits)

lemmas scenario_eval =
  scenario_def getattr_def window_def since_last_session_def sample_def mean_truncated_def

section \<open>Recomputed averages\<close>

text \<open>
  C1. A Session whose average power (cadence, heart rate) is absent leaves the loop with
  that field set to the mean, truncated toward zero, of the window list of power (cadence,
  heart rate): one sample per Record since the last Session, 0 for a Record without the
  field, and 0 as the mean of no samples. \<open>mean_truncated\<close> states the truncated mean in
  integer arithmetic; \<open>py_int_calculate_avg\<close> relates it to \<^verbatim>\<open>int(calculate_avg(...))\<close>.
\<close>

theorem session_average_recomputed:
  assumes "i < length msgs" and "kind (msgs ! i) = SessionMessage"
  shows "(getattr (msgs ! i) ''avg_power'' = None \<longrightarrow>
            getattr (cleanup_messages msgs ! i) ''avg_power'' =
              Some (mean_truncated (window ''power'' (take i msgs)))) \<and>
         (getattr (msgs ! i) ''avg_cadence'' = None \<longrightarrow>
            getattr (cleanup_messages msgs ! i) ''avg_cadence'' =
              Some (mean_truncated (window ''cadence'' (take i msgs)))) \<and>
         (getattr (msgs ! i) ''avg_heart_rate'' = None \<longrightarrow>
            getattr (cleanup_messages msgs ! i) ''avg_heart_rate'' =
              Some (mean_truncated (window ''heart_rate'' (take i msgs))))"
  using assms
  by (simp add: cleanup_messages_nth emitted_def getattr_build_session_avg
      windows_process_records)

theorem session_average_recomputed_witness:
  "5 < length scenario \<and> kind (scenario ! 5) = SessionMessage \<and>
   getattr (scenario ! 5) ''avg_power'' = None \<and>
   getattr (scenario ! 5) ''avg_cadence'' = None \<and>
   getattr (scenario ! 5) ''avg_heart_rate'' = None \<and>
   getattr (cleanup_messages scenario ! 5) ''avg_power'' = Some 150 \<and>
   getattr (cleanup_messages scenario ! 5) ''avg_cadence'' = Some 90 \<and>
   getattr (cleanup_messages scenario ! 5) ''avg_heart_rate'' = Some 130"
proof -
  have h1: "5 < length scenario" by (simp add: scenario_def)
  have h2: "kind (scenario ! 5) = SessionMessage" by (simp add: scenario_def)
  have a: "getattr (scenario ! 5) ''avg_power'' = None"
    "getattr (scenario ! 5) ''avg_cadence'' = None"
    "getattr (scenario ! 5) ''avg_heart_rate'' = None"
    by (simp_all add: scenario_def getattr_def)
  have w: "mean_truncated (window ''power'' (take 5 scenario)) = 150"
    "mean_truncated (window ''cadence'' (take 5 scenario)) = 90"
    "mean_truncated (window ''heart_rate'' (take 5 scenario)) = 130"
    by (simp_all add: scenario_eval)
  from session_average_recomputed [OF h1 h2] a w h1 h2 show ?thesis by simp
qed

section \<open>Averages the Session brings along\<close>

text \<open>
  C2. A Session whose average power, average cadence or average heart rate is present,
  a present 0 included, leaves the loop with that value unchanged, whatever the window
  lists hold.
\<close>

theorem session_average_passthrough:
  assumes "i < length msgs" and "kind (msgs ! i) = SessionMessage"
  shows "\<forall>name \<in> {''avg_power'', ''avg_cadence'', ''avg_heart_rate''}. \<forall>v.
           getattr (msgs ! i) name = Some v \<longrightarrow>
           getattr (cleanup_messages msgs ! i) name = Some v"
  using assms
  by (simp add: cleanup_messages_nth emitted_def getattr_build_session_avg)

theorem session_average_passthrough_witness:
  "7 < length scenario \<and> kind (scenario ! 7) = SessionMessage \<and>
   getattr (scenario ! 7) ''avg_power'' = Some 0 \<and>
   getattr (scenario ! 7) ''avg_cadence'' = Some 77 \<and>
   mean_truncated (window ''power'' (take 7 scenario)) = 50 \<and>
   getattr (cleanup_messages scenario ! 7) ''avg_power'' = Some 0 \<and>
   getattr (cleanup_messages scenario ! 7) ''avg_cadence'' = Some 77"
proof -
  have h1: "7 < length scenario" by (simp add: scenario_def)
  have h2: "kind (scenario ! 7) = SessionMessage" by (simp add: scenario_def)
  have a: "getattr (scenario ! 7) ''avg_power'' = Some 0"
    "getattr (scenario ! 7) ''avg_cadence'' = Some 77"
    by (simp_all add: scenario_def getattr_def)
  have w: "mean_truncated (window ''power'' (take 7 scenario)) = 50"
    by (simp add: scenario_eval)
  from session_average_passthrough [OF h1 h2] a w h1 h2 show ?thesis by simp
qed

section \<open>Records lose their temperature\<close>

lemma field_table_remove_field:
  "field_table (remove_field m f) = filter (\<lambda>(k, v). k \<noteq> f) (field_table m)"
  by (induction "field_table m" arbitrary: m) (auto simp: remove_field_def AList.delete_eq intro: filter_cong)

text \<open>
  C3. Every Record of the input is handed to the builder at its own position, as soon as it
  is processed, without the temperature field and with every other field as it was.
\<close>

theorem record_temperature_removed:
  assumes "i < length msgs" and "kind (msgs ! i) = RecordMessage"
  shows "length (cleanup_messages msgs) = length msgs \<and>
         kind (cleanup_messages msgs ! i) = RecordMessage \<and>
         getattr (cleanup_messages msgs ! i) ''temperature'' = None \<and>
         (\<forall>name. name \<noteq> ''temperature'' \<longrightarrow>
            getattr (cleanup_messages msgs ! i) name = getattr (msgs ! i) name) \<and>
         field_table (cleanup_messages msgs ! i) =
           filter (\<lambda>(name, v). name \<noteq> ''temperature'') (field_table (msgs ! i)) \<and>
         cleanup_messages (take (Suc i) msgs) =
           cleanup_messages (take i msgs) @ [cleanup_messages msgs ! i]"
  using assms
  by (simp add: length_cleanup_messages cleanup_messages_nth cleanup_messages_take_Suc
      emitted_def kind_remove_field getattr_remove_field field_table_remove_field
      RecordTemperatureField_ID_def)

theorem record_temperature_removed_witness:
  "3 < length scenario \<and> kind (scenario ! 3) = RecordMessage \<and>
   getattr (scenario ! 3) ''temperature'' = Some 21 \<and>
   getattr (cleanup_messages scenario ! 3) ''temperature'' = None \<and>
   field_table (cleanup_messages scenario ! 3) =
     [(''power'', 150), (''cadence'', 90), (''heart_rate'', 130)]"
proof -
  have h1: "3 < length scenario" by (simp add: scenario_def)
  have h2: "kind (scenario ! 3) = RecordMessage" by (simp add: scenario_def)
  have a: "getattr (scenario ! 3) ''temperature'' = Some 21"
    by (simp add: scenario_def getattr_def)
  have f: "filter (\<lambda>(name, v). name \<noteq> ''temperature'') (field_table (scenario ! 3)) =
      [(''power'', 150), (''cadence'', 90), (''heart_rate'', 130)]"
    by (simp add: scenario_def)
  from record_temperature_removed [OF h1 h2] a f h1 h2 show ?thesis by simp
qed


section \<open>The rebuilt Session\<close>

lemma getattr_new_SessionMessage: "getattr new_SessionMessage k = None"
  by (simp add: new_SessionMessage_def getattr_def)

lemma getattr_build_session:
  "getattr (build_session st m) k =
     (if k = ''avg_heart_rate'' \<or> k = ''avg_power'' \<or> k = ''avg_cadence''
      then getattr (build_session st m) k
      else if k \<in> set SESSION_COPY_FIELDS then getattr m k else None)"
  by (simp add: build_session_def Let_def getattr_set_avg getattr_copy_fields
      getattr_new_SessionMessage)

lemma kind_build_session: "kind (build_session st m) = SessionMessage"
  by (simp add: build_session_def Let_def kind_set_avg kind_copy_fields new_SessionMessage_def)

lemma distinct_setattr:
  "distinct (map fst (field_table m)) \<Longrightarrow> distinct (map fst (field_table (setattr m n v)))"
  by (simp add: setattr_def distinct_update)

lemma distinct_copy_fields:
  "distinct (map fst (field_table new)) \<Longrightarrow>
   distinct (map fst (field_table (copy_fields new m names)))"
  unfolding copy_fields_def
  by (induction names arbitrary: new) (auto simp: distinct_setattr split: option.splits)

lemma distinct_set_avg:
  "distinct (map fst (field_table new)) \<Longrightarrow>
   distinct (map fst (field_table (set_avg new m n vs)))"
  by (simp add: set_avg_def distinct_setattr split: option.splits)

lemma distinct_build_session: "distinct (map fst (field_table (build_session st m)))"
  by (simp add: build_session_def Let_def distinct_set_avg distinct_copy_fields
      new_SessionMessage_def)

lemma avg_not_copied:
  "''avg_heart_rate'' \<notin> set SESSION_COPY_FIELDS"
  "''avg_power'' \<notin> set SESSION_COPY_FIELDS"
  "''avg_cadence'' \<notin> set SESSION_COPY_FIELDS"
  by (simp_all add: SESSION_COPY_FIELDS_def)

text \<open>
  C4. For a Session the loop hands the builder a new Session: each of the fifteen copied
  fields is there exactly when the input has it, with the input's value; the three averages
  are there; no other field is there; and it takes the place of the original, which is not
  handed on.
\<close>

theorem session_rebuilt_from_whitelist:
  assumes "i < length msgs" and "kind (msgs ! i) = SessionMessage"
  shows "kind (cleanup_messages msgs ! i) = SessionMessage \<and>
         (\<forall>name \<in> set [''message_index'', ''timestamp'', ''start_time'', ''sport'',
                         ''sub_sport'', ''event'', ''event_type'', ''first_lap_index'',
                         ''num_laps'', ''total_elapsed_time'', ''total_timer_time'',
                         ''total_distance'', ''total_calories'', ''avg_speed'', ''max_speed''].
            getattr (cleanup_messages msgs ! i) name = getattr (msgs ! i) name) \<and>
         (\<forall>name \<in> {''avg_cadence'', ''avg_power'', ''avg_heart_rate''}.
            getattr (cleanup_messages msgs ! i) name \<noteq> None) \<and>
         (\<forall>name. name \<notin> set [''message_index'', ''timestamp'', ''start_time'', ''sport'',
                         ''sub_sport'', ''event'', ''event_type'', ''first_lap_index'',
                         ''num_laps'', ''total_elapsed_time'', ''total_timer_time'',
                         ''total_distance'', ''total_calories'', ''avg_speed'', ''max_speed'',
                         ''avg_cadence'', ''avg_power'', ''avg_heart_rate''] \<longrightarrow>
            getattr (cleanup_messages msgs ! i) name = None) \<and>
         distinct (map fst (field_table (cleanup_messages msgs ! i))) \<and>
         length (cleanup_messages msgs) = length msgs \<and>
         cleanup_messages (take (Suc i) msgs) =
           cleanup_messages (take i msgs) @ [cleanup_messages msgs ! i]"
proof -
  let ?st = "process_records initial_state (take i msgs)"
  have out: "cleanup_messages msgs ! i = build_session ?st (msgs ! i)"
    using assms by (simp add: cleanup_messages_nth emitted_def)
  have copied: "\<forall>name \<in> set SESSION_COPY_FIELDS.
      getattr (build_session ?st (msgs ! i)) name = getattr (msgs ! i) name"
    using avg_not_copied by (subst getattr_build_session) auto
  have avgs: "\<forall>name \<in> {''avg_cadence'', ''avg_power'', ''avg_heart_rate''}.
      getattr (build_session ?st (msgs ! i)) name \<noteq> None"
    by (simp add: getattr_build_session_avg split: option.splits)
  have others: "\<forall>name. name \<notin> set SESSION_COPY_FIELDS \<union>
        {''avg_cadence'', ''avg_power'', ''avg_heart_rate''} \<longrightarrow>
      getattr (build_session ?st (msgs ! i)) name = None"
    by (subst getattr_build_session) auto
  have step: "cleanup_messages (take (Suc i) msgs) =
      cleanup_messages (take i msgs) @ [build_session ?st (msgs ! i)]"
    using assms by (simp add: cleanup_messages_take_Suc emitted_def)
  show ?thesis
    unfolding out
    using copied avgs others step
    by (simp add: kind_build_session distinct_build_session length_cleanup_messages
        SESSION_COPY_FIELDS_def)
qed

theorem session_rebuilt_from_whitelist_witness:
  "5 < length scenario \<and> kind (scenario ! 5) = SessionMessage \<and>
   getattr (scenario ! 5) ''total_work'' = Some 90000 \<and>
   getattr (cleanup_messages scenario ! 5) ''total_work'' = None \<and>
   getattr (cleanup_messages scenario ! 5) ''timestamp'' = Some 5000 \<and>
   getattr (cleanup_messages scenario ! 5) ''sport'' = Some 2 \<and>
   getattr (cleanup_messages scenario ! 5) ''sub_sport'' = None \<and>
   getattr (cleanup_messages scenario ! 5) ''avg_power'' \<noteq> None"
proof -
  have h1: "5 < length scenario" by (simp add: scenario_def)
  have h2: "kind (scenario ! 5) = SessionMessage" by (simp add: scenario_def)
  have a: "getattr (scenario ! 5) ''total_work'' = Some 90000"
    "getattr (scenario ! 5) ''timestamp'' = Some 5000"
    "getattr (scenario ! 5) ''sport'' = Some 2"
    "getattr (scenario ! 5) ''sub_sport'' = None"
    by (simp_all add: scenario_def getattr_def)
  from session_rebuilt_from_whitelist [OF h1 h2] a h1 h2 show ?thesis by simp
qed


section \<open>The window boundary\<close>

lemma process_message_builder_prefix:
  "process_message (st\<lparr>builder := b @ builder st\<rparr>) m =
     (process_message st m)\<lparr>builder := b @ builder (process_message st m)\<rparr>"
  by (simp add: process_message_def Let_def reset_values_def build_session_def)

lemma process_records_builder_prefix:
  "process_records (st\<lparr>builder := b @ builder st\<rparr>) msgs =
     (process_records st msgs)\<lparr>builder := b @ builder (process_records st msgs)\<rparr>"
proof (induction msgs rule: rev_induct)
  case Nil
  then show ?case by (simp add: process_records_def)
next
  case (snoc x xs)
  then show ?case
    by (simp add: process_records_snoc process_message_builder_prefix)
qed

lemma builder_process_records_from:
  "builder (process_records (initial_state\<lparr>builder := b\<rparr>) msgs) =
     b @ builder (process_records initial_state msgs)"
  using process_records_builder_prefix [where st = initial_state and b = b and msgs = msgs]
  by (simp add: builder_initial_state)

lemma process_message_session_resets:
  "kind m = SessionMessage \<Longrightarrow>
   process_message st m = initial_state\<lparr>builder := builder st @ [build_session st m]\<rparr>"
  by (simp add: process_message_def Let_def reset_values_def initial_state_def)

lemma collect_lap_append: "collect_lap vs m = vs @ map (\<lambda>name. sample name m) LAP_FIELDS"
proof -
  have "foldl (\<lambda>vs name. append_value vs m name) vs names =
      vs @ map (\<lambda>name. sample name m) names" for names
    by (induction names arbitrary: vs) (simp_all add: append_value_sample)
  then show ?thesis by (simp add: collect_lap_def)
qed

text \<open>
  C5. Processing a Session empties the four window lists; processing any other message
  only extends them; so what the loop emits after a Session is what it emits for the rest
  of the stream started afresh.
\<close>

theorem session_clears_window:
  "(kind m = SessionMessage \<longrightarrow>
      lap_values (process_message st m) = [] \<and> cadence_values (process_message st m) = [] \<and>
      power_values (process_message st m) = [] \<and>
      heart_rate_values (process_message st m) = []) \<and>
   (kind m \<noteq> SessionMessage \<longrightarrow>
      (\<exists>ys. lap_values (process_message st m) = lap_values st @ ys) \<and>
      (\<exists>ys. cadence_values (process_message st m) = cadence_values st @ ys) \<and>
      (\<exists>ys. power_values (process_message st m) = power_values st @ ys) \<and>
      (\<exists>ys. heart_rate_values (process_message st m) = heart_rate_values st @ ys)) \<and>
   (kind m = SessionMessage \<longrightarrow>
      cleanup_messages (pre @ [m] @ post) =
        cleanup_messages (pre @ [m]) @ cleanup_messages post)"
proof (intro conjI impI)
  assume s: "kind m = SessionMessage"
  let ?b = "builder (process_records initial_state pre) @
              [build_session (process_records initial_state pre) m]"
  have a: "process_records initial_state (pre @ [m]) = initial_state\<lparr>builder := ?b\<rparr>"
    using s by (simp add: process_records_snoc process_message_session_resets)
  have "process_records initial_state (pre @ [m] @ post) =
      process_records (process_records initial_state (pre @ [m])) post"
    by (simp add: process_records_def)
  then have "cleanup_messages (pre @ [m] @ post) =
      builder (process_records (initial_state\<lparr>builder := ?b\<rparr>) post)"
    by (simp only: cleanup_messages_def a)
  also have "\<dots> = ?b @ cleanup_messages post"
    by (simp only: builder_process_records_from cleanup_messages_def)
  also have "?b = cleanup_messages (pre @ [m])"
    by (simp add: cleanup_messages_def a)
  finally show "cleanup_messages (pre @ [m] @ post) =
      cleanup_messages (pre @ [m]) @ cleanup_messages post" .
qed (simp_all add: process_message_def Let_def reset_values_def collect_lap_append
      append_value_sample)

theorem session_clears_window_witness:
  "kind (scenario ! 5) = SessionMessage \<and>
   power_values (process_records initial_state (take 5 scenario)) = [100, 150, 200] \<and>
   power_values (process_records initial_state (take 6 scenario)) = [] \<and>
   kind (scenario ! 6) \<noteq> SessionMessage \<and>
   power_values (process_records initial_state (take 7 scenario)) = [50] \<and>
   cleanup_messages scenario =
     cleanup_messages (take 6 scenario) @ cleanup_messages (drop 6 scenario)"
proof -
  let ?st = "process_records initial_state (take 5 scenario)"
  have k: "kind (scenario ! 5) = SessionMessage" "kind (scenario ! 6) \<noteq> SessionMessage"
    by (simp_all add: scenario_def)
  have split: "scenario = take 5 scenario @ [scenario ! 5] @ drop 6 scenario"
    "take 6 scenario = take 5 scenario @ [scenario ! 5]"
    by (simp_all add: scenario_def)
  have p5: "power_values ?st = [100, 150, 200]"
    by (simp add: windows_process_records scenario_eval)
  have p7: "power_values (process_records initial_state (take 7 scenario)) = [50]"
    by (simp add: windows_process_records scenario_eval)
  have st6: "process_records initial_state (take 6 scenario) =
      process_message ?st (scenario ! 5)"
    by (simp add: split(2) process_records_snoc)
  from session_clears_window [of "scenario ! 5" ?st "take 5 scenario" "drop 6 scenario"]
  have "power_values (process_records initial_state (take 6 scenario)) = []"
    and "cleanup_messages (take 5 scenario @ [scenario ! 5] @ drop 6 scenario) =
      cleanup_messages (take 5 scenario @ [scenario ! 5]) @ cleanup_messages (drop 6 scenario)"
    using k st6 by simp_all
  then show ?thesis
    using k p5 p7 split by simp
qed

section \<open>Laps\<close>

lemma process_message_lap_values_irrelevant:
  "(process_message (st\<lparr>lap_values := l\<rparr>) m)\<lparr>lap_values := []\<rparr> =
     (process_message st m)\<lparr>lap_values := []\<rparr>"
  by (simp add: process_message_def Let_def reset_values_def build_session_def)

lemma process_records_lap_values_irrelevant:
  "(process_records (st\<lparr>lap_values := l\<rparr>) msgs)\<lparr>lap_values := []\<rparr> =
     (process_records st msgs)\<lparr>lap_values := []\<rparr>"
proof (induction msgs rule: rev_induct)
  case Nil
  then show ?case by (simp add: process_records_def)
next
  case (snoc x xs)
  let ?a = "process_records (st\<lparr>lap_values := l\<rparr>) xs"
  let ?b = "process_records st xs"
  have "?a = ?a\<lparr>lap_values := lap_values ?a\<rparr>" by simp
  also have "\<dots> = (?b\<lparr>lap_values := []\<rparr>)\<lparr>lap_values := lap_values ?a\<rparr>"
    using snoc.IH by (metis cleanup_state.update_convs(1) cleanup_state.surjective)
  finally have eq: "?a = ?b\<lparr>lap_values := lap_values ?a\<rparr>" by simp
  show ?case
    unfolding process_records_snoc
    by (subst eq) (rule process_message_lap_values_irrelevant)
qed

text \<open>
  C6. A Lap appends its ten fields to the lap list, 0 for an absent one, is handed to the
  builder as it is, and leaves the three sample lists alone. Over a whole stream: a Lap at
  position \<open>i\<close> of the input is the message at position \<open>i\<close> of the output, appended when
  it is processed; the lap list grows by its ten values and the three sample lists stay as
  they are. Nothing the loop emits or accumulates otherwise depends on the lap list.
\<close>

theorem lap_collected_and_forwarded:
  "(kind m = LapMessage \<longrightarrow>
      lap_values (process_message st m) =
        lap_values st @
          map (\<lambda>name. sample name m)
            [''start_time'', ''total_elapsed_time'', ''total_distance'', ''avg_speed'',
             ''max_speed'', ''avg_heart_rate'', ''max_heart_rate'', ''avg_cadence'',
             ''max_cadence'', ''total_calories''] \<and>
      builder (process_message st m) = builder st @ [m] \<and>
      cadence_values (process_message st m) = cadence_values st \<and>
      power_values (process_message st m) = power_values st \<and>
      heart_rate_values (process_message st m) = heart_rate_values st) \<and>
   (i < length msgs \<and> kind (msgs ! i) = LapMessage \<longrightarrow>
      length (cleanup_messages msgs) = length msgs \<and>
      cleanup_messages msgs ! i = msgs ! i \<and>
      cleanup_messages (take (Suc i) msgs) = cleanup_messages (take i msgs) @ [msgs ! i] \<and>
      lap_values (process_records initial_state (take (Suc i) msgs)) =
        lap_values (process_records initial_state (take i msgs)) @
          map (\<lambda>name. sample name (msgs ! i))
            [''start_time'', ''total_elapsed_time'', ''total_distance'', ''avg_speed'',
             ''max_speed'', ''avg_heart_rate'', ''max_heart_rate'', ''avg_cadence'',
             ''max_cadence'', ''total_calories''] \<and>
      cadence_values (process_records initial_state (take (Suc i) msgs)) =
        cadence_values (process_records initial_state (take i msgs)) \<and>
      power_values (process_records initial_state (take (Suc i) msgs)) =
        power_values (process_records initial_state (take i msgs)) \<and>
      heart_rate_values (process_records initial_state (take (Suc i) msgs)) =
        heart_rate_values (process_records initial_state (take i msgs))) \<and>
   builder (process_records (st\<lparr>lap_values := l\<rparr>) msgs) = builder (process_records st msgs) \<and>
   cadence_values (process_records (st\<lparr>lap_values := l\<rparr>) msgs) =
     cadence_values (process_records st msgs) \<and>
   power_values (process_records (st\<lparr>lap_values := l\<rparr>) msgs) =
     power_values (process_records st msgs) \<and>
   heart_rate_values (process_records (st\<lparr>lap_values := l\<rparr>) msgs) =
     heart_rate_values (process_records st msgs)"
proof -
  have lap: "kind m = LapMessage \<Longrightarrow>
      process_message st m =
        st\<lparr>lap_values := lap_values st @ map (\<lambda>name. sample name m) LAP_FIELDS,
           builder := builder st @ [m]\<rparr>" for st m
    by (simp add: process_message_def Let_def collect_lap_append)
  have stream: "length (cleanup_messages msgs) = length msgs \<and>
      cleanup_messages msgs ! i = msgs ! i \<and>
      cleanup_messages (take (Suc i) msgs) = cleanup_messages (take i msgs) @ [msgs ! i] \<and>
      lap_values (process_records initial_state (take (Suc i) msgs)) =
        lap_values (process_records initial_state (take i msgs)) @
          map (\<lambda>name. sample name (msgs ! i)) LAP_FIELDS \<and>
      cadence_values (process_records initial_state (take (Suc i) msgs)) =
        cadence_values (process_records initial_state (take i msgs)) \<and>
      power_values (process_records initial_state (take (Suc i) msgs)) =
        power_values (process_records initial_state (take i msgs)) \<and>
      heart_rate_values (process_records initial_state (take (Suc i) msgs)) =
        heart_rate_values (process_records initial_state (take i msgs))"
    if "i < length msgs" and "kind (msgs ! i) = LapMessage"
    using that
    by (simp add: length_cleanup_messages cleanup_messages_nth cleanup_messages_take_Suc
        emitted_def process_records_take_Suc lap)
  have "builder ((process_records (st\<lparr>lap_values := l\<rparr>) msgs)\<lparr>lap_values := []\<rparr>) =
        builder ((process_records st msgs)\<lparr>lap_values := []\<rparr>)"
    "cadence_values ((process_records (st\<lparr>lap_values := l\<rparr>) msgs)\<lparr>lap_values := []\<rparr>) =
        cadence_values ((process_records st msgs)\<lparr>lap_values := []\<rparr>)"
    "power_values ((process_records (st\<lparr>lap_values := l\<rparr>) msgs)\<lparr>lap_values := []\<rparr>) =
        power_values ((process_records st msgs)\<lparr>lap_values := []\<rparr>)"
    "heart_rate_values ((process_records (st\<lparr>lap_values := l\<rparr>) msgs)\<lparr>lap_values := []\<rparr>) =
        heart_rate_values ((process_records st msgs)\<lparr>lap_values := []\<rparr>)"
    by (simp_all only: process_records_lap_values_irrelevant)
  then have indep:
    "builder (process_records (st\<lparr>lap_values := l\<rparr>) msgs) = builder (process_records st msgs)"
    "cadence_values (process_records (st\<lparr>lap_values := l\<rparr>) msgs) =
       cadence_values (process_records st msgs)"
    "power_values (process_records (st\<lparr>lap_values := l\<rparr>) msgs) =
       power_values (process_records st msgs)"
    "heart_rate_values (process_records (st\<lparr>lap_values := l\<rparr>) msgs) =
       heart_rate_values (process_records st msgs)"
    by simp_all
  have one: "kind m = LapMessage \<longrightarrow>
      lap_values (process_message st m) =
        lap_values st @ map (\<lambda>name. sample name m) LAP_FIELDS \<and>
      builder (process_message st m) = builder st @ [m] \<and>
      cadence_values (process_message st m) = cadence_values st \<and>
      power_values (process_message st m) = power_values st \<and>
      heart_rate_values (process_message st m) = heart_rate_values st"
    by (simp add: lap)
  show ?thesis
    using one stream indep unfolding LAP_FIELDS_def by blast
qed

theorem lap_collected_and_forwarded_witness:
  "kind (scenario ! 2) = LapMessage \<and>
   lap_values (process_message initial_state (scenario ! 2)) =
     [1000, 0, 0, 0, 0, 0, 0, 0, 0, 200] \<and>
   builder (process_message initial_state (scenario ! 2)) = [scenario ! 2] \<and>
   power_values (process_message initial_state (scenario ! 2)) = [] \<and>
   2 < length scenario \<and>
   length (cleanup_messages scenario) = length scenario \<and>
   cleanup_messages scenario ! 2 = scenario ! 2 \<and>
   cleanup_messages (take 3 scenario) = cleanup_messages (take 2 scenario) @ [scenario ! 2] \<and>
   lap_values (process_records initial_state (take 3 scenario)) =
     lap_values (process_records initial_state (take 2 scenario)) @
       [1000, 0, 0, 0, 0, 0, 0, 0, 0, 200]"
proof -
  have k: "kind (scenario ! 2) = LapMessage" "2 < length scenario"
    by (simp_all add: scenario_def)
  have i: "lap_values initial_state = []" "builder initial_state = []"
    "power_values initial_state = []"
    by (simp_all add: initial_state_def reset_values_def)
  have v: "map (\<lambda>name. sample name (scenario ! 2))
      [''start_time'', ''total_elapsed_time'', ''total_distance'', ''avg_speed'',
       ''max_speed'', ''avg_heart_rate'', ''max_heart_rate'', ''avg_cadence'',
       ''max_cadence'', ''total_calories''] = [1000, 0, 0, 0, 0, 0, 0, 0, 0, 200]"
    by (simp add: scenario_def sample_def getattr_def)
  have n: "Suc 2 = 3" by simp
  note t = lap_collected_and_forwarded
    [where m = "scenario ! 2" and st = initial_state and i = 2 and msgs = scenario]
  from t k have one: "lap_values (process_message initial_state (scenario ! 2)) =
      lap_values initial_state @
        map (\<lambda>name. sample name (scenario ! 2))
          [''start_time'', ''total_elapsed_time'', ''total_distance'', ''avg_speed'',
           ''max_speed'', ''avg_heart_rate'', ''max_heart_rate'', ''avg_cadence'',
           ''max_cadence'', ''total_calories'']"
    "builder (process_message initial_state (scenario ! 2)) =
       builder initial_state @ [scenario ! 2]"
    "power_values (process_message initial_state (scenario ! 2)) = power_values initial_state"
    by blast+
  from t k have st: "length (cleanup_messages scenario) = length scenario"
    "cleanup_messages scenario ! 2 = scenario ! 2"
    "cleanup_messages (take (Suc 2) scenario) =
       cleanup_messages (take 2 scenario) @ [scenario ! 2]"
    "lap_values (process_records initial_state (take (Suc 2) scenario)) =
       lap_values (process_records initial_state (take 2 scenario)) @
         map (\<lambda>name. sample name (scenario ! 2))
           [''start_time'', ''total_elapsed_time'', ''total_distance'', ''avg_speed'',
            ''max_speed'', ''avg_heart_rate'', ''max_heart_rate'', ''avg_cadence'',
            ''max_cadence'', ''total_calories'']"
    by blast+
  from one st k show ?thesis
    by (simp only: i v n append_Nil)
qed

section \<open>The most recent file is the one with the greatest version\<close>

lemma sorted_last_greatest:
  "sorted (map f ys) \<Longrightarrow> y \<in> set ys \<Longrightarrow> f y \<le> f (last ys)"
  by (induction ys) (auto split: if_splits)

lemma sorted_reverse_hd_greatest:
  assumes "x \<in> set xs"
  shows "key x \<le> key (hd (sorted_reverse key xs))"
proof -
  let ?ys = "sort_key key (rev xs)"
  have ne: "?ys \<noteq> []" using assms by (metis empty_iff empty_set set_rev set_sort)
  have "x \<in> set ?ys" using assms by simp
  then have "key x \<le> key (last ?ys)"
    by (rule sorted_last_greatest [OF sorted_sort_key])
  then show ?thesis using ne by (simp add: sorted_reverse_def hd_rev)
qed

lemma sorted_reverse_hd_member:
  assumes "xs \<noteq> []"
  shows "hd (sorted_reverse key xs) \<in> set xs"
proof -
  let ?ys = "sort_key key (rev xs)"
  have ne: "?ys \<noteq> []" using assms by (metis length_0_conv length_rev length_sort)
  then have "last ?ys \<in> set ?ys" by (rule last_in_set)
  then show ?thesis using ne by (simp add: sorted_reverse_def hd_rev)
qed

lemma map_insort_key:
  "map g (insort_key (\<lambda>x. f (g x)) x xs) = insort_key f (g x) (map g xs)"
  by (induction xs) simp_all

lemma map_sort_key: "map g (sort_key (\<lambda>x. f (g x)) xs) = sort_key f (map g xs)"
  by (induction xs) (simp_all add: map_insort_key)

lemma map_sorted_reverse:
  "map g (sorted_reverse (\<lambda>x. f (g x)) xs) = sorted_reverse f (map g xs)"
  by (simp add: sorted_reverse_def rev_map [symmetric] map_sort_key)

lemma sorted_reverse_Nil_iff: "sorted_reverse key xs = [] \<longleftrightarrow> xs = []"
  by (metis length_0_conv length_rev length_sort sorted_reverse_def)

lemma get_most_recent_fit_file_names:
  "map_option entry_name (get_most_recent_fit_file pf es) =
     (let fit_files = filter (glob_match pf) (map entry_name es)
      in if fit_files = [] then None
         else Some (hd (sorted_reverse (extract_version pf) fit_files)))"
proof -
  let ?fs = "filter (\<lambda>e. glob_match pf (entry_name e)) es"
  have f: "filter (glob_match pf) (map entry_name es) = map entry_name ?fs"
    by (simp add: filter_map comp_def)
  show ?thesis
  proof (cases "?fs = []")
    case True
    then show ?thesis by (simp add: get_most_recent_fit_file_def f)
  next
    case False
    then have "sorted_reverse (\<lambda>e. extract_version pf (entry_name e)) ?fs \<noteq> []"
      by (simp add: sorted_reverse_Nil_iff)
    then have "entry_name (hd (sorted_reverse (\<lambda>e. extract_version pf (entry_name e)) ?fs)) =
        hd (sorted_reverse (extract_version pf) (map entry_name ?fs))"
      by (simp add: map_sorted_reverse [symmetric] hd_map)
    then show ?thesis using False by (simp add: get_most_recent_fit_file_def f Let_def)
  qed
qed

lemma affix_iff:
  "(length p + length s \<le> length n \<and> take (length p) n = p \<and>
    drop (length n - length s) n = s) \<longleftrightarrow> (\<exists>mid. n = p @ mid @ s)"
proof
  assume a: "length p + length s \<le> length n \<and> take (length p) n = p \<and>
    drop (length n - length s) n = s"
  define k where "k = length n - length s - length p"
  have "k + length p = length n - length s" using a by (simp add: k_def)
  then have "drop k (drop (length p) n) = s" using a by simp
  then have "drop (length p) n = take k (drop (length p) n) @ s"
    by (metis append_take_drop_id)
  then have "n = p @ take k (drop (length p) n) @ s"
    using a by (metis append_take_drop_id)
  then show "\<exists>mid. n = p @ mid @ s" by blast
next
  assume "\<exists>mid. n = p @ mid @ s"
  then show "length p + length s \<le> length n \<and> take (length p) n = p \<and>
    drop (length n - length s) n = s"
    by auto
qed

lemma normcase_append: "normcase pf (a @ b) = normcase pf a @ normcase pf b"
  by (simp add: normcase_def)

lemma length_normcase: "length (normcase pf s) = length s"
  by (simp add: normcase_def)

lemma normcase_take_drop:
  "normcase pf (take k s) = take k (normcase pf s)"
  "normcase pf (drop k s) = drop k (normcase pf s)"
  by (simp_all add: normcase_def take_map drop_map)

lemma glob_match_iff:
  "glob_match pf n \<longleftrightarrow>
     (\<exists>mid. normcase pf n = normcase pf (ascii ''MyNewActivity-'' @ mid @ ascii ''.fit''))"
proof -
  let ?P = "normcase pf (ascii ''MyNewActivity-'')" and ?S = "normcase pf (ascii ''.fit'')"
  have "glob_match pf n \<longleftrightarrow> (\<exists>mid'. normcase pf n = ?P @ mid' @ ?S)"
    unfolding glob_match_def Let_def by (rule affix_iff)
  also have "\<dots> \<longleftrightarrow>
      (\<exists>mid. normcase pf n = normcase pf (ascii ''MyNewActivity-'' @ mid @ ascii ''.fit''))"
  proof
    assume "\<exists>mid'. normcase pf n = ?P @ mid' @ ?S"
    then obtain mid' where m: "normcase pf n = ?P @ mid' @ ?S" by blast
    define mid where "mid = take (length mid') (drop (length ?P) n)"
    have "normcase pf mid = take (length mid') (drop (length ?P) (normcase pf n))"
      by (simp only: mid_def normcase_take_drop)
    also have "\<dots> = mid'" by (simp add: m)
    finally have "normcase pf n = ?P @ normcase pf mid @ ?S" using m by simp
    then show "\<exists>mid. normcase pf n =
        normcase pf (ascii ''MyNewActivity-'' @ mid @ ascii ''.fit'')"
      by (metis normcase_append)
  next
    assume "\<exists>mid. normcase pf n =
        normcase pf (ascii ''MyNewActivity-'' @ mid @ ascii ''.fit'')"
    then show "\<exists>mid'. normcase pf n = ?P @ mid' @ ?S"
      by (metis normcase_append)
  qed
  finally show ?thesis .
qed

lemma stem_ext:
  assumes "46 \<notin> set ext" and "ext \<noteq> []"
  shows "stem (b # s @ 46 # ext) = b # s"
proof -
  let ?n = "b # s @ 46 # ext"
  have r: "rev ?n = rev ext @ 46 # rev (b # s)" by simp
  have "takeWhile (\<lambda>c. c \<noteq> 46) (rev ext @ 46 # rev (b # s)) =
      rev ext @ takeWhile (\<lambda>c. c \<noteq> 46) (46 # rev (b # s))"
    by (rule takeWhile_append2) (use assms in auto)
  then have t: "takeWhile (\<lambda>c. c \<noteq> 46) (rev ?n) = rev ext"
    unfolding r by simp
  have i: "length ?n - length (rev ext) - 1 = Suc (length s)" by simp
  have l: "Suc (length s) < length ?n - 1" using assms(2) by (cases ext) simp_all
  have "stem ?n = take (Suc (length s)) ?n"
    unfolding stem_def t i using l by (simp del: rev.simps)
  then show ?thesis by simp
qed

lemma split_last_append:
  assumes "sep \<notin> set v"
  shows "split_last sep (base @ sep # v) = v"
proof -
  have "takeWhile (\<lambda>c. c \<noteq> sep) (rev v @ sep # rev base) =
      rev v @ takeWhile (\<lambda>c. c \<noteq> sep) (sep # rev base)"
    by (rule takeWhile_append2) (use assms in auto)
  then show ?thesis by (simp add: split_last_def)
qed

lemma findall_digits_Nil_iff:
  "findall_digits pf cur v = [] \<longleftrightarrow> cur = [] \<and> (\<forall>c \<in> set v. \<not> is_digit pf c)"
  by (induction v arbitrary: cur) auto

lemma findall_digits_run:
  "\<forall>c \<in> set r. is_digit pf c \<Longrightarrow>
   findall_digits pf cur (r @ rest) = findall_digits pf (cur @ r) rest"
  by (induction r arbitrary: cur) simp_all

lemma findall_digits_skip:
  "\<forall>c \<in> set s. \<not> is_digit pf c \<Longrightarrow>
   findall_digits pf [] (s @ xs) = findall_digits pf [] xs"
  by (induction s) simp_all

lemma findall_digits_block:
  assumes "\<forall>c \<in> set s. \<not> is_digit pf c" and "r \<noteq> []" and "\<forall>c \<in> set r. is_digit pf c"
    and "rest = [] \<or> \<not> is_digit pf (hd rest)"
  shows "findall_digits pf [] (s @ r @ rest) = r # findall_digits pf [] rest"
proof -
  have "findall_digits pf [] (s @ r @ rest) = findall_digits pf r rest"
    using assms(1,3) by (simp add: findall_digits_skip findall_digits_run)
  also have "\<dots> = r # findall_digits pf [] rest"
    using assms(2,4) by (cases rest) simp_all
  finally show ?thesis .
qed

lemma int_of_digits_snoc:
  "int_of_digits pf (ds @ [c]) =
     10 * int_of_digits pf ds + (case digit_value pf c of Some d \<Rightarrow> d | None \<Rightarrow> 0)"
  by (simp add: int_of_digits_def)

lemma positional_snoc: "positional (ds @ [d]) = 10 * positional ds + d"
proof -
  have "(\<Sum>i < length ds. (ds @ [d]) ! i * 10 ^ (Suc (length ds) - Suc i)) =
      (\<Sum>i < length ds. 10 * (ds ! i * 10 ^ (length ds - Suc i)))"
  proof (rule sum.cong)
    fix i
    assume "i \<in> {..<length ds}"
    then have i: "i < length ds" by simp
    then have "Suc (length ds) - Suc i = Suc (length ds - Suc i)" by simp
    then show "(ds @ [d]) ! i * 10 ^ (Suc (length ds) - Suc i) =
        10 * (ds ! i * 10 ^ (length ds - Suc i))"
      using i by (simp add: nth_append)
  qed simp
  then show ?thesis
    by (simp add: positional_def sum_distrib_left)
qed

lemma int_of_digits_positional:
  "int_of_digits pf cs =
     positional (map (\<lambda>c. case digit_value pf c of Some d \<Rightarrow> d | None \<Rightarrow> 0) cs)"
proof (induction cs rule: rev_induct)
  case Nil
  then show ?case by (simp add: int_of_digits_def positional_def)
next
  case (snoc c cs)
  then show ?case by (simp add: int_of_digits_snoc positional_snoc)
qed

declare show_nat.simps [simp del]

lemma show_nat_range: "\<forall>c \<in> set (show_nat n). 48 \<le> c \<and> c \<le> 57"
proof (induction n rule: show_nat.induct)
  case (1 n)
  show ?case
  proof (cases "n < 10")
    case True
    then show ?thesis by (subst show_nat.simps) simp
  next
    case False
    have "n mod 10 < 10" by simp
    then have "48 + n mod 10 \<le> 57" by linarith
    then show ?thesis
      using False 1 by (subst show_nat.simps) simp
  qed
qed

lemma show_nat_not_Nil: "show_nat n \<noteq> []"
  by (subst show_nat.simps) simp

lemma is_digit_range:
  assumes "\<forall>d < 10. digit_value pf (48 + d) = Some d" and "48 \<le> c" and "c \<le> 57"
  shows "digit_value pf c = Some (c - 48)"
proof -
  have "c - 48 < 10" using assms(2,3) by simp
  then have "digit_value pf (48 + (c - 48)) = Some (c - 48)" using assms(1) by blast
  then show ?thesis using assms(2) by simp
qed

lemma show_nat_digits:
  assumes "\<forall>d < 10. digit_value pf (48 + d) = Some d"
  shows "\<forall>c \<in> set (show_nat n). is_digit pf c"
  using show_nat_range [of n] is_digit_range [OF assms]
  by (auto simp: is_digit_def)

lemma int_of_digits_show_nat:
  assumes "\<forall>d < 10. digit_value pf (48 + d) = Some d"
  shows "int_of_digits pf (show_nat n) = n"
proof (induction n rule: show_nat.induct)
  case (1 n)
  show ?case
  proof (cases "n < 10")
    case True
    then have "digit_value pf (48 + n) = Some n" using assms by blast
    then show ?thesis
      using True by (subst show_nat.simps) (simp add: int_of_digits_def)
  next
    case False
    have "n mod 10 < 10" by simp
    then have "digit_value pf (48 + n mod 10) = Some (n mod 10)" using assms by blast
    then show ?thesis
      using False 1 by (subst show_nat.simps) (simp add: int_of_digits_snoc)
  qed
qed

lemma dotted_range: "\<forall>c \<in> set (dotted ns). c = 46 \<or> (48 \<le> c \<and> c \<le> 57)"
  using show_nat_range by (induction ns rule: dotted.induct) auto

lemma findall_digits_dotted:
  assumes "\<forall>d < 10. digit_value pf (48 + d) = Some d" and "digit_value pf 46 = None"
  shows "findall_digits pf [] (dotted ns) = map show_nat ns"
proof (induction ns rule: dotted.induct)
  case 1
  then show ?case by simp
next
  case (2 n)
  have "findall_digits pf [] (show_nat n @ []) = findall_digits pf ([] @ show_nat n) []"
    by (rule findall_digits_run) (rule show_nat_digits [OF assms(1)])
  then show ?case by (simp add: show_nat_not_Nil)
next
  case (3 n m ns)
  have "findall_digits pf [] (show_nat n @ 46 # dotted (m # ns)) =
      findall_digits pf ([] @ show_nat n) (46 # dotted (m # ns))"
    by (rule findall_digits_run) (rule show_nat_digits [OF assms(1)])
  then show ?case
    using 3 assms(2) by (simp add: show_nat_not_Nil is_digit_def)
qed

lemma extract_version_suffix:
  assumes "45 \<notin> set v" and "46 \<notin> set ext" and "ext \<noteq> []"
  shows "extract_version pf (base @ [45] @ v @ [46] @ ext) =
     (if \<forall>c \<in> set v. digit_value pf c = None then [0]
      else map (int_of_digits pf) (findall_digits pf [] v))"
proof -
  have n: "base @ [45] @ v @ [46] @ ext = hd (base @ [45]) # (tl (base @ [45]) @ v) @ 46 # ext"
    by (cases base) simp_all
  have "stem (base @ [45] @ v @ [46] @ ext) = hd (base @ [45]) # tl (base @ [45]) @ v"
    unfolding n by (rule stem_ext [OF assms(2,3)])
  also have "\<dots> = base @ 45 # v" by (cases base) simp_all
  finally have "split_last 45 (stem (base @ [45] @ v @ [46] @ ext)) = v"
    using split_last_append [OF assms(1)] by simp
  then have "extract_version pf (base @ [45] @ v @ [46] @ ext) =
      (if findall_digits pf [] v \<noteq> [] then map (int_of_digits pf) (findall_digits pf [] v)
       else [0])"
    by (simp only: extract_version_def Let_def)
  then show ?thesis
    by (simp add: findall_digits_Nil_iff is_digit_def)
qed

lemma extract_version_dotted:
  assumes "\<forall>d < 10. digit_value pf (48 + d) = Some d" and "digit_value pf 46 = None"
    and "ns \<noteq> []" and "46 \<notin> set ext" and "ext \<noteq> []"
  shows "extract_version pf (base @ [45] @ dotted ns @ [46] @ ext) = ns"
proof -
  have h: "45 \<notin> set (dotted ns)" using dotted_range [of ns] by auto
  have f: "findall_digits pf [] (dotted ns) = map show_nat ns"
    by (rule findall_digits_dotted [OF assms(1,2)])
  have "\<not> (\<forall>c \<in> set (dotted ns). digit_value pf c = None)"
  proof
    assume "\<forall>c \<in> set (dotted ns). digit_value pf c = None"
    then have "findall_digits pf [] (dotted ns) = []"
      by (simp add: findall_digits_Nil_iff is_digit_def)
    then show False using f assms(3) by simp
  qed
  then have "extract_version pf (base @ [45] @ dotted ns @ [46] @ ext) =
      map (int_of_digits pf) (map show_nat ns)"
    using extract_version_suffix [OF h assms(4,5), of pf base] by (simp only: f if_False)
  also have "\<dots> = ns"
    by (simp add: int_of_digits_show_nat [OF assms(1)] comp_def)
  finally show ?thesis .
qed

text \<open>
  C9. \<^verbatim>\<open>get_most_recent_fit_file\<close> answers \<^verbatim>\<open>None\<close> exactly when no entry is named
  \<^verbatim>\<open>MyNewActivity-*.fit\<close> (in the case the platform compares names in); otherwise it
  answers such an entry whose version tuple is greatest among them. The version tuple of a
  name \<^verbatim>\<open>base-v.ext\<close>, where \<^verbatim>\<open>v\<close> has no hyphen, is made of the numbers in \<^verbatim>\<open>v\<close> alone and
  is \<^verbatim>\<open>(0,)\<close> when \<^verbatim>\<open>v\<close> has no digit; the numbers are the maximal runs of digits, read in
  base ten, so that a version written \<^verbatim>\<open>3.10.0\<close> has the tuple \<^verbatim>\<open>(3, 10, 0)\<close>.
  Modification times play no part: two listings with the same names give the same name.
\<close>

theorem most_recent_by_version:
  "(get_most_recent_fit_file pf es = None \<longleftrightarrow>
      (\<forall>e \<in> set es. \<not> (\<exists>mid. normcase pf (entry_name e) =
         normcase pf (ascii ''MyNewActivity-'' @ mid @ ascii ''.fit'')))) \<and>
   (\<forall>r. get_most_recent_fit_file pf es = Some r \<longrightarrow>
      r \<in> set es \<and>
      (\<exists>mid. normcase pf (entry_name r) =
         normcase pf (ascii ''MyNewActivity-'' @ mid @ ascii ''.fit'')) \<and>
      (\<forall>e \<in> set es.
         (\<exists>mid. normcase pf (entry_name e) =
            normcase pf (ascii ''MyNewActivity-'' @ mid @ ascii ''.fit'')) \<longrightarrow>
         extract_version pf (entry_name e) \<le> extract_version pf (entry_name r))) \<and>
   (45 \<notin> set v \<and> 46 \<notin> set ext \<and> ext \<noteq> [] \<longrightarrow>
      extract_version pf (base @ [45] @ v @ [46] @ ext) =
        (if \<forall>c \<in> set v. digit_value pf c = None then [0]
         else map (int_of_digits pf) (findall_digits pf [] v))) \<and>
   ((\<forall>c \<in> set s. digit_value pf c = None) \<and> r \<noteq> [] \<and>
    (\<forall>c \<in> set r. digit_value pf c \<noteq> None) \<and>
    (rest = [] \<or> digit_value pf (hd rest) = None) \<longrightarrow>
      findall_digits pf [] (s @ r @ rest) = r # findall_digits pf [] rest) \<and>
   int_of_digits pf cs =
     positional (map (\<lambda>c. case digit_value pf c of Some d \<Rightarrow> d | None \<Rightarrow> 0) cs) \<and>
   ((\<forall>d < 10. digit_value pf (48 + d) = Some d) \<and> digit_value pf 46 = None \<and> ns \<noteq> [] \<and>
    46 \<notin> set ext \<and> ext \<noteq> [] \<longrightarrow>
      extract_version pf (base @ [45] @ dotted ns @ [46] @ ext) = ns) \<and>
   (map entry_name es = map entry_name es' \<longrightarrow>
      map_option entry_name (get_most_recent_fit_file pf es) =
        map_option entry_name (get_most_recent_fit_file pf es'))"
proof (intro conjI allI impI ballI)
  let ?fs = "filter (\<lambda>e. glob_match pf (entry_name e)) es"
  let ?key = "\<lambda>e. extract_version pf (entry_name e)"
  show "get_most_recent_fit_file pf es = None \<longleftrightarrow>
      (\<forall>e \<in> set es. \<not> (\<exists>mid. normcase pf (entry_name e) =
         normcase pf (ascii ''MyNewActivity-'' @ mid @ ascii ''.fit'')))"
    unfolding glob_match_iff [symmetric]
    by (simp add: get_most_recent_fit_file_def Let_def filter_empty_conv)
  {
    fix r
    assume "get_most_recent_fit_file pf es = Some r"
    then have ne: "?fs \<noteq> []" and r: "r = hd (sorted_reverse ?key ?fs)"
      by (auto simp: get_most_recent_fit_file_def Let_def split: if_splits)
    have mem: "r \<in> set ?fs" unfolding r using ne by (rule sorted_reverse_hd_member)
    then show "r \<in> set es" by simp
    from mem show "\<exists>mid. normcase pf (entry_name r) =
        normcase pf (ascii ''MyNewActivity-'' @ mid @ ascii ''.fit'')"
      by (simp add: glob_match_iff)
    fix e
    assume "e \<in> set es" and "\<exists>mid. normcase pf (entry_name e) =
        normcase pf (ascii ''MyNewActivity-'' @ mid @ ascii ''.fit'')"
    then have "e \<in> set ?fs" by (simp add: glob_match_iff)
    then show "extract_version pf (entry_name e) \<le> extract_version pf (entry_name r)"
      unfolding r by (rule sorted_reverse_hd_greatest)
  }
  {
    assume "45 \<notin> set v \<and> 46 \<notin> set ext \<and> ext \<noteq> []"
    then show "extract_version pf (base @ [45] @ v @ [46] @ ext) =
        (if \<forall>c \<in> set v. digit_value pf c = None then [0]
         else map (int_of_digits pf) (findall_digits pf [] v))"
      by (intro extract_version_suffix) simp_all
  }
  {
    assume "(\<forall>c \<in> set s. digit_value pf c = None) \<and> r \<noteq> [] \<and>
      (\<forall>c \<in> set r. digit_value pf c \<noteq> None) \<and>
      (rest = [] \<or> digit_value pf (hd rest) = None)"
    then show "findall_digits pf [] (s @ r @ rest) = r # findall_digits pf [] rest"
      by (intro findall_digits_block) (simp_all add: is_digit_def)
  }
  show "int_of_digits pf cs =
      positional (map (\<lambda>c. case digit_value pf c of Some d \<Rightarrow> d | None \<Rightarrow> 0) cs)"
    by (rule int_of_digits_positional)
  {
    assume "(\<forall>d < 10. digit_value pf (48 + d) = Some d) \<and> digit_value pf 46 = None \<and>
      ns \<noteq> [] \<and> 46 \<notin> set ext \<and> ext \<noteq> []"
    then show "extract_version pf (base @ [45] @ dotted ns @ [46] @ ext) = ns"
      by (intro extract_version_dotted) simp_all
  }
  {
    assume "map entry_name es = map entry_name es'"
    then show "map_option entry_name (get_most_recent_fit_file pf es) =
        map_option entry_name (get_most_recent_fit_file pf es')"
      by (simp only: get_most_recent_fit_file_names)
  }
qed

theorem most_recent_by_version_witness:
  "get_most_recent_fit_file posix_platform listing_versions =
     Some \<lparr>entry_name = ascii ''MyNewActivity-3.10.0.fit'', entry_mtime = 30\<rparr> \<and>
   get_most_recent_fit_file nt_platform listing_versions =
     Some \<lparr>entry_name = ascii ''mynewactivity-9.FIT'', entry_mtime = 10\<rparr> \<and>
   extract_version posix_platform (ascii ''MyNewActivity-3.9.1.fit'') \<le>
     extract_version posix_platform (ascii ''MyNewActivity-3.10.0.fit'') \<and>
   extract_version posix_platform (ascii ''MyNewActivity-3.9.1.fit'') = [3, 9, 1] \<and>
   extract_version posix_platform (ascii ''MyNewActivity-3.10.0.fit'') = [3, 10, 0] \<and>
   extract_version posix_platform (ascii ''MyNewActivity-4.0-rc1.fit'') = [1] \<and>
   extract_version posix_platform arabic_indic_name = [7, 2] \<and>
   findall_digits posix_platform [] (ascii ''rc12b3'') = [ascii ''12'', ascii ''3''] \<and>
   int_of_digits posix_platform (ascii ''310'') = 310 \<and>
   map_option entry_name (get_most_recent_fit_file posix_platform listing_versions_touched) =
     Some (ascii ''MyNewActivity-3.10.0.fit'')"
proof -
  let ?old = "\<lparr>entry_name = ascii ''MyNewActivity-3.9.1.fit'', entry_mtime = 40\<rparr>"
  let ?new = "\<lparr>entry_name = ascii ''MyNewActivity-3.10.0.fit'', entry_mtime = 30\<rparr>"
  let ?pat = "\<lambda>n. \<exists>mid. normcase posix_platform n =
      normcase posix_platform (ascii ''MyNewActivity-'' @ mid @ ascii ''.fit'')"
  have g: "get_most_recent_fit_file posix_platform listing_versions = Some ?new"
    by code_simp
  have g': "get_most_recent_fit_file nt_platform listing_versions =
      Some \<lparr>entry_name = ascii ''mynewactivity-9.FIT'', entry_mtime = 10\<rparr>"
    by code_simp
  have m: "?old \<in> set listing_versions"
    by (simp add: listing_versions_def)
  have ex: "?pat (entry_name ?old)"
    by (rule exI [where x = "ascii ''3.9.1''"]) code_simp
  have n: "map entry_name listing_versions = map entry_name listing_versions_touched"
    by (simp add: listing_versions_def listing_versions_touched_def)
  have tab: "(\<forall>d < 10. digit_value posix_platform (48 + d) = Some d) \<and>
      digit_value posix_platform 46 = None"
    by (simp add: posix_platform_def demo_digit_def)
  have ext: "46 \<notin> set (ascii ''fit'') \<and> ascii ''fit'' \<noteq> []"
    by (simp add: ascii_def)
  note t = most_recent_by_version
    [where pf = posix_platform and es = listing_versions and es' = listing_versions_touched
       and base = "ascii ''MyNewActivity-4.0''" and v = "ascii ''rc1''"
       and ext = "ascii ''fit''" and s = "ascii ''rc''" and r = "ascii ''12''"
       and rest = "ascii ''b3''" and cs = "ascii ''310''" and ns = "[3, 9, 1]"]
  note u = most_recent_by_version
    [where pf = posix_platform and base = "ascii ''MyNewActivity''" and v = "[1639, 46, 1634]"
       and ext = "ascii ''fit''" and ns = "[3, 10, 0]"]
  note w = most_recent_by_version
    [where pf = posix_platform and base = "ascii ''MyNewActivity''" and ext = "ascii ''fit''"
       and ns = "[3, 9, 1]"]
  from t [THEN conjunct2, THEN conjunct1, rule_format, OF g, THEN conjunct2, THEN conjunct2,
      rule_format, OF m ex]
  have le:
    "extract_version posix_platform (ascii ''MyNewActivity-3.9.1.fit'') \<le>
     extract_version posix_platform (ascii ''MyNewActivity-3.10.0.fit'')"
    by simp
  have n391: "ascii ''MyNewActivity'' @ [45] @ dotted [3, 9, 1] @ [46] @ ascii ''fit'' =
      ascii ''MyNewActivity-3.9.1.fit''"
    by code_simp
  have n3100: "ascii ''MyNewActivity'' @ [45] @ dotted [3, 10, 0] @ [46] @ ascii ''fit'' =
      ascii ''MyNewActivity-3.10.0.fit''"
    by code_simp
  have hw: "(\<forall>d < 10. digit_value posix_platform (48 + d) = Some d) \<and>
      digit_value posix_platform 46 = None \<and> [3, 9, 1 :: nat] \<noteq> [] \<and>
      46 \<notin> set (ascii ''fit'') \<and> ascii ''fit'' \<noteq> []"
    using tab ext by simp
  have hu: "(\<forall>d < 10. digit_value posix_platform (48 + d) = Some d) \<and>
      digit_value posix_platform 46 = None \<and> [3, 10, 0 :: nat] \<noteq> [] \<and>
      46 \<notin> set (ascii ''fit'') \<and> ascii ''fit'' \<noteq> []"
    using tab ext by simp
  from w [THEN conjunct2, THEN conjunct2, THEN conjunct2, THEN conjunct2, THEN conjunct2,
      THEN conjunct1, THEN mp, OF hw]
  have "extract_version posix_platform
      (ascii ''MyNewActivity'' @ [45] @ dotted [3, 9, 1] @ [46] @ ascii ''fit'') = [3, 9, 1]" .
  then have v391: "extract_version posix_platform (ascii ''MyNewActivity-3.9.1.fit'') =
      [3, 9, 1]"
    by (simp only: n391)
  from u [THEN conjunct2, THEN conjunct2, THEN conjunct2, THEN conjunct2, THEN conjunct2,
      THEN conjunct1, THEN mp, OF hu]
  have "extract_version posix_platform
      (ascii ''MyNewActivity'' @ [45] @ dotted [3, 10, 0] @ [46] @ ascii ''fit'') = [3, 10, 0]" .
  then have v3100: "extract_version posix_platform (ascii ''MyNewActivity-3.10.0.fit'') =
      [3, 10, 0]"
    by (simp only: n3100)
  have hy: "45 \<notin> set (ascii ''rc1'')" "45 \<notin> set [1639, 46, 1634 :: nat]"
    by (simp_all add: ascii_def)
  have nrc: "ascii ''MyNewActivity-4.0'' @ [45] @ ascii ''rc1'' @ [46] @ ascii ''fit'' =
      ascii ''MyNewActivity-4.0-rc1.fit''"
    by code_simp
  have erc: "(if \<forall>c \<in> set (ascii ''rc1''). digit_value posix_platform c = None then [0]
      else map (int_of_digits posix_platform)
        (findall_digits posix_platform [] (ascii ''rc1''))) = [1]"
    by code_simp
  from t [THEN conjunct2, THEN conjunct2, THEN conjunct1, THEN mp, OF conjI [OF hy(1) ext]]
  have "extract_version posix_platform
      (ascii ''MyNewActivity-4.0'' @ [45] @ ascii ''rc1'' @ [46] @ ascii ''fit'') =
      (if \<forall>c \<in> set (ascii ''rc1''). digit_value posix_platform c = None then [0]
       else map (int_of_digits posix_platform)
         (findall_digits posix_platform [] (ascii ''rc1'')))" .
  then have vrc: "extract_version posix_platform (ascii ''MyNewActivity-4.0-rc1.fit'') = [1]"
    by (simp only: nrc erc)
  have nar: "ascii ''MyNewActivity'' @ [45] @ [1639, 46, 1634] @ [46] @ ascii ''fit'' =
      arabic_indic_name"
    by code_simp
  have ear: "(if \<forall>c \<in> set [1639, 46, 1634]. digit_value posix_platform c = None then [0]
      else map (int_of_digits posix_platform)
        (findall_digits posix_platform [] [1639, 46, 1634])) = [7, 2]"
    by code_simp
  from u [THEN conjunct2, THEN conjunct2, THEN conjunct1, THEN mp, OF conjI [OF hy(2) ext]]
  have "extract_version posix_platform
      (ascii ''MyNewActivity'' @ [45] @ [1639, 46, 1634] @ [46] @ ascii ''fit'') =
      (if \<forall>c \<in> set [1639, 46, 1634]. digit_value posix_platform c = None then [0]
       else map (int_of_digits posix_platform)
         (findall_digits posix_platform [] [1639, 46, 1634]))" .
  then have var: "extract_version posix_platform arabic_indic_name = [7, 2]"
    by (simp only: nar ear)
  have blk: "(\<forall>c \<in> set (ascii ''rc''). digit_value posix_platform c = None) \<and>
      ascii ''12'' \<noteq> [] \<and> (\<forall>c \<in> set (ascii ''12''). digit_value posix_platform c \<noteq> None) \<and>
      (ascii ''b3'' = [] \<or> digit_value posix_platform (hd (ascii ''b3'')) = None)"
    by code_simp
  have fb: "ascii ''12'' # findall_digits posix_platform [] (ascii ''b3'') =
      [ascii ''12'', ascii ''3'']"
    by code_simp
  have cat: "ascii ''rc'' @ ascii ''12'' @ ascii ''b3'' = ascii ''rc12b3''"
    by code_simp
  from t [THEN conjunct2, THEN conjunct2, THEN conjunct2, THEN conjunct1, THEN mp, OF blk]
  have "findall_digits posix_platform [] (ascii ''rc'' @ ascii ''12'' @ ascii ''b3'') =
      ascii ''12'' # findall_digits posix_platform [] (ascii ''b3'')" .
  then have fd: "findall_digits posix_platform [] (ascii ''rc12b3'') =
      [ascii ''12'', ascii ''3'']"
    by (simp only: cat fb)
  have pos: "positional (map (\<lambda>c. case digit_value posix_platform c of
      Some d \<Rightarrow> d | None \<Rightarrow> 0) (ascii ''310'')) = 310"
    by code_simp
  from t [THEN conjunct2, THEN conjunct2, THEN conjunct2, THEN conjunct2, THEN conjunct1]
  have "int_of_digits posix_platform (ascii ''310'') =
      positional (map (\<lambda>c. case digit_value posix_platform c of
        Some d \<Rightarrow> d | None \<Rightarrow> 0) (ascii ''310''))" .
  then have iv: "int_of_digits posix_platform (ascii ''310'') = 310"
    by (simp only: pos)
  from t [THEN conjunct2, THEN conjunct2, THEN conjunct2, THEN conjunct2, THEN conjunct2,
      THEN conjunct2, THEN mp, OF n]
  have "map_option entry_name (get_most_recent_fit_file posix_platform listing_versions) =
      map_option entry_name (get_most_recent_fit_file posix_platform listing_versions_touched)" .
  then have mt: "map_option entry_name
      (get_most_recent_fit_file posix_platform listing_versions_touched) =
      Some (ascii ''MyNewActivity-3.10.0.fit'')"
    by (simp add: g)
  show ?thesis
    by (intro conjI g g' le v391 v3100 vrc var fd iv mt)
qed

section \<open>A failed transform returns nothing, and may leave a file\<close>

lemma get_most_recent_listing_demo:
  "get_most_recent_fit_file posix_platform listing_demo =
     Some \<lparr>entry_name = ascii ''MyNewActivity-3.9.1.fit'', entry_mtime = 100\<rparr>"
  by code_simp

lemma dirname_joinpath: "dirname (joinpath d n) = d"
  by (simp add: dirname_def joinpath_def)

lemma to_file_elsewhere:
  "p \<noteq> q \<Longrightarrow> contents (snd (to_file cd fs q fit_file)) p = contents fs p"
  by (simp add: to_file_def split: sum.splits prod.splits)

lemma cleanup_fit_file_elsewhere:
  "p \<noteq> q \<Longrightarrow> contents (snd (cleanup_fit_file cd fs src q)) p = contents fs p"
  by (simp add: cleanup_fit_file_def to_file_elsewhere split: sum.splits)

lemma cleanup_and_save_fit_file_elsewhere:
  assumes "listing fs location = Some entries"
    and "get_most_recent_fit_file pf entries = Some fit_file"
    and "p \<noteq> joinpath backup (generate_new_filename timestamp (entry_name fit_file))"
  shows "contents (snd (cleanup_and_save_fit_file pf cd timestamp fs (Some location)
           (Some backup))) p = contents fs p"
proof -
  let ?r = "cleanup_fit_file cd fs (joinpath location (entry_name fit_file))
      (joinpath backup (generate_new_filename timestamp (entry_name fit_file)))"
  have "contents (snd ?r) p = contents fs p"
    using assms(3) by (rule cleanup_fit_file_elsewhere)
  then show ?thesis
    using assms(1,2)
    by (cases ?r) (auto simp: cleanup_and_save_fit_file_def Let_def split: option.splits)
qed

text \<open>
  C7, as amended. A decode error, and an encode error raised while the \<^verbatim>\<open>FitFile\<close>
  object is built, end the transform before anything is written:
  \<^verbatim>\<open>cleanup_and_save_fit_file\<close> answers \<^verbatim>\<open>None\<close> and the file system is as it was. An
  encode error raised inside \<^verbatim>\<open>to_file\<close> also makes it answer \<^verbatim>\<open>None\<close> and leaves every
  other file as it was, but the output file, once opened, stays behind with what had been
  written.
\<close>

theorem failed_transform_returns_none:
  assumes "listing fs location = Some entries"
    and "get_most_recent_fit_file pf entries = Some fit_file"
    and "contents fs (joinpath location (entry_name fit_file)) = Some bs"
  shows "((\<exists>e. decode cd bs = Inl e) \<or>
          (\<exists>records e. decode cd bs = Inr records \<and>
             build cd (cleanup_messages records) = Inl e) \<longrightarrow>
            cleanup_and_save_fit_file pf cd timestamp fs (Some location) backup_location =
              (None, fs)) \<and>
         (\<forall>records built e written.
            decode cd bs = Inr records \<and> build cd (cleanup_messages records) = Inr built \<and>
            to_bytes cd built = Inl (e, written) \<longrightarrow>
              fst (cleanup_and_save_fit_file pf cd timestamp fs (Some location) (Some backup)) =
                None \<and>
              (\<forall>p. p \<noteq> joinpath backup (generate_new_filename timestamp (entry_name fit_file))
                 \<longrightarrow> contents (snd (cleanup_and_save_fit_file pf cd timestamp fs
                                       (Some location) (Some backup))) p = contents fs p) \<and>
              (listing fs backup \<noteq> None \<and>
               listing fs (joinpath backup
                 (generate_new_filename timestamp (entry_name fit_file))) = None \<longrightarrow>
                 contents (snd (cleanup_and_save_fit_file pf cd timestamp fs
                                  (Some location) (Some backup)))
                   (joinpath backup (generate_new_filename timestamp (entry_name fit_file))) =
                 Some written))"
proof (intro conjI impI allI)
  let ?src = "joinpath location (entry_name fit_file)"
  let ?new = "joinpath backup (generate_new_filename timestamp (entry_name fit_file))"
  {
    assume "(\<exists>e. decode cd bs = Inl e) \<or>
      (\<exists>records e. decode cd bs = Inr records \<and> build cd (cleanup_messages records) = Inl e)"
    then have "\<exists>e. cleanup_fit_file cd fs ?src q = (Some e, fs)" for q
      using assms(3) by (auto simp: cleanup_fit_file_def from_file_def)
    then have "(case cleanup_fit_file cd fs ?src q of
        (Some e, fs') \<Rightarrow> (None, fs') | (None, fs') \<Rightarrow> (Some q, fs')) = (None, fs)" for q
      by (metis (mono_tags, lifting) case_prod_conv option.simps(5))
    then show "cleanup_and_save_fit_file pf cd timestamp fs (Some location) backup_location =
        (None, fs)"
      using assms(1,2)
      by (simp add: cleanup_and_save_fit_file_def Let_def split: option.splits)
  }
  fix records built e written
  assume a: "decode cd bs = Inr records \<and> build cd (cleanup_messages records) = Inr built \<and>
    to_bytes cd built = Inl (e, written)"
  have c: "cleanup_fit_file cd fs ?src ?new = to_file cd fs ?new built"
    using a assms(3) by (simp add: cleanup_fit_file_def from_file_def)
  have t: "fst (to_file cd fs ?new built) \<noteq> None"
    using a by (simp add: to_file_def)
  show "fst (cleanup_and_save_fit_file pf cd timestamp fs (Some location) (Some backup)) = None"
    using assms(1,2) t
    by (cases "to_file cd fs ?new built")
      (auto simp: cleanup_and_save_fit_file_def Let_def c split: option.splits)
  {
    fix p
    assume "p \<noteq> ?new"
    then show "contents (snd (cleanup_and_save_fit_file pf cd timestamp fs (Some location)
        (Some backup))) p = contents fs p"
      by (rule cleanup_and_save_fit_file_elsewhere [OF assms(1,2)])
  }
  {
    assume o: "listing fs backup \<noteq> None \<and> listing fs ?new = None"
    then have "to_file cd fs ?new built =
        (Some (EncodeError e), fs\<lparr>contents := (contents fs)(?new \<mapsto> written)\<rparr>)"
      using a by (simp add: to_file_def dirname_joinpath)
    then show "contents (snd (cleanup_and_save_fit_file pf cd timestamp fs (Some location)
        (Some backup))) ?new = Some written"
      using assms(1,2) o
      by (simp add: cleanup_and_save_fit_file_def Let_def c path_exists_def)
  }
qed

lemma demo_source:
  "listing (demo_fs bs) data_dir = Some listing_demo"
  "contents (demo_fs bs)
     (joinpath data_dir
        (entry_name \<lparr>entry_name = ascii ''MyNewActivity-3.9.1.fit'', entry_mtime = 100\<rparr>)) =
   Some bs"
  by (simp_all add: demo_fs_def)

lemma demo_target:
  "joinpath backup_dir
     (generate_new_filename demo_stamp
        (entry_name \<lparr>entry_name = ascii ''MyNewActivity-3.9.1.fit'', entry_mtime = 100\<rparr>)) =
   demo_output"
  "listing (demo_fs demo_file) backup_dir \<noteq> None \<and>
   listing (demo_fs demo_file) demo_output = None"
  "contents (demo_fs demo_file) demo_output = None"
  by code_simp+

lemma late_codec_fails:
  "decode late_codec demo_file = Inr scenario \<and>
   build late_codec (cleanup_messages scenario) = Inr (cleanup_messages scenario) \<and>
   to_bytes late_codec (cleanup_messages scenario) = Inl (InternalInconsistency, [])"
  by (simp add: late_codec_def)

theorem failed_transform_returns_none_witness:
  "decode demo_codec [] = Inl MalformedHeader \<and>
   cleanup_and_save_fit_file posix_platform demo_codec demo_stamp (demo_fs []) (Some data_dir)
     (Some backup_dir) = (None, demo_fs []) \<and>
   decode strict_codec demo_file = Inr scenario \<and>
   build strict_codec (cleanup_messages scenario) = Inl InternalInconsistency \<and>
   cleanup_and_save_fit_file posix_platform strict_codec demo_stamp (demo_fs demo_file)
     (Some data_dir) (Some backup_dir) = (None, demo_fs demo_file) \<and>
   to_bytes late_codec (cleanup_messages scenario) = Inl (InternalInconsistency, []) \<and>
   fst (cleanup_and_save_fit_file posix_platform late_codec demo_stamp (demo_fs demo_file)
     (Some data_dir) (Some backup_dir)) = None \<and>
   contents (snd (cleanup_and_save_fit_file posix_platform late_codec demo_stamp
     (demo_fs demo_file) (Some data_dir) (Some backup_dir))) demo_output = Some []"
proof -
  have d: "decode demo_codec [] = Inl MalformedHeader"
    by (simp add: demo_codec_def)
  then have d': "(\<exists>e. decode demo_codec [] = Inl e) \<or>
      (\<exists>records e. decode demo_codec [] = Inr records \<and>
         build demo_codec (cleanup_messages records) = Inl e)"
    by simp
  have e: "decode strict_codec demo_file = Inr scenario"
    "build strict_codec (cleanup_messages scenario) = Inl InternalInconsistency"
    by (simp_all add: strict_codec_def)
  then have e': "(\<exists>e. decode strict_codec demo_file = Inl e) \<or>
      (\<exists>records e. decode strict_codec demo_file = Inr records \<and>
         build strict_codec (cleanup_messages records) = Inl e)"
    by simp
  note t1 = failed_transform_returns_none
    [OF demo_source(1) get_most_recent_listing_demo demo_source(2),
     where cd = demo_codec and timestamp = demo_stamp and backup_location = "Some backup_dir",
     THEN conjunct1, THEN mp, OF d']
  note t2 = failed_transform_returns_none
    [OF demo_source(1) get_most_recent_listing_demo demo_source(2),
     where cd = strict_codec and timestamp = demo_stamp and backup_location = "Some backup_dir",
     THEN conjunct1, THEN mp, OF e']
  note t3 = failed_transform_returns_none
    [OF demo_source(1) get_most_recent_listing_demo demo_source(2),
     where cd = late_codec and timestamp = demo_stamp and backup = backup_dir,
     THEN conjunct2, rule_format, OF late_codec_fails]
  note l = late_codec_fails [THEN conjunct2, THEN conjunct2]
  from t3 have f: "fst (cleanup_and_save_fit_file posix_platform late_codec demo_stamp
      (demo_fs demo_file) (Some data_dir) (Some backup_dir)) = None"
    by (rule conjunct1)
  from t3 [THEN conjunct2, THEN conjunct2]
  have "listing (demo_fs demo_file) backup_dir \<noteq> None \<and>
      listing (demo_fs demo_file) demo_output = None \<longrightarrow>
      contents (snd (cleanup_and_save_fit_file posix_platform late_codec demo_stamp
        (demo_fs demo_file) (Some data_dir) (Some backup_dir))) demo_output = Some []"
    by (simp only: demo_target(1))
  from this [THEN mp, OF demo_target(2)]
  have c: "contents (snd (cleanup_and_save_fit_file posix_platform late_codec demo_stamp
      (demo_fs demo_file) (Some data_dir) (Some backup_dir))) demo_output = Some []" .
  show ?thesis
    by (intro conjI d t1 e t2 l f c)
qed

text \<open>
  The claim as it stands fails where the serialisation inside \<^verbatim>\<open>to_file\<close> raises: the
  encode error is there, \<^verbatim>\<open>None\<close> is returned, and an output file that did not exist
  before the call exists after it, empty.
\<close>

theorem failed_transform_leaves_file_counterexample:
  "decode late_codec demo_file = Inr scenario \<and>
   build late_codec (cleanup_messages scenario) = Inr (cleanup_messages scenario) \<and>
   to_bytes late_codec (cleanup_messages scenario) = Inl (InternalInconsistency, []) \<and>
   contents (demo_fs demo_file) demo_output = None \<and>
   fst (cleanup_and_save_fit_file posix_platform late_codec demo_stamp (demo_fs demo_file)
     (Some data_dir) (Some backup_dir)) = None \<and>
   contents (snd (cleanup_and_save_fit_file posix_platform late_codec demo_stamp
     (demo_fs demo_file) (Some data_dir) (Some backup_dir))) demo_output = Some [] \<and>
   snd (cleanup_and_save_fit_file posix_platform late_codec demo_stamp (demo_fs demo_file)
     (Some data_dir) (Some backup_dir)) \<noteq> demo_fs demo_file"
proof -
  have r: "fst (cleanup_and_save_fit_file posix_platform late_codec demo_stamp
      (demo_fs demo_file) (Some data_dir) (Some backup_dir)) = None"
    "contents (snd (cleanup_and_save_fit_file posix_platform late_codec demo_stamp
      (demo_fs demo_file) (Some data_dir) (Some backup_dir))) demo_output = Some []"
    by code_simp+
  have n: "snd (cleanup_and_save_fit_file posix_platform late_codec demo_stamp
      (demo_fs demo_file) (Some data_dir) (Some backup_dir)) \<noteq> demo_fs demo_file"
  proof
    assume "snd (cleanup_and_save_fit_file posix_platform late_codec demo_stamp
      (demo_fs demo_file) (Some data_dir) (Some backup_dir)) = demo_fs demo_file"
    then have "contents (snd (cleanup_and_save_fit_file posix_platform late_codec demo_stamp
      (demo_fs demo_file) (Some data_dir) (Some backup_dir))) demo_output =
      contents (demo_fs demo_file) demo_output"
      by (rule arg_cong)
    then show False
      by (simp only: r(2) demo_target(3)) simp
  qed
  show ?thesis
    by (intro conjI late_codec_fails [THEN conjunct1]
        late_codec_fails [THEN conjunct2, THEN conjunct1]
        late_codec_fails [THEN conjunct2, THEN conjunct2] demo_target(3) r n)
qed

section \<open>The exit code does not depend on the upload\<close>

text \<open>
  C10. When every step up to and including the cleanup succeeds, \<^verbatim>\<open>main\<close> answers 0
  whatever the upload does; an upload that raises makes \<^verbatim>\<open>upload_fit_file_to_garmin\<close>
  answer \<^verbatim>\<open>False\<close>, and \<^verbatim>\<open>main\<close> drops that answer.
\<close>

theorem main_ignores_upload_result:
  assumes "ensure_packages env" and "import_required_modules env"
    and "get_fitfile_location env = Some fitfile_location"
    and "get_backup_path env = Some backup_location"
    and "authenticate_to_garmin env"
    and "cleanup_and_save_fit_file (os env) (fit_tool env) (now env) fs (Some fitfile_location)
           (Some backup_location) = (Some new_file_path, fs')"
  shows "(\<forall>outcome. fst (main (env\<lparr>garth_upload := outcome\<rparr>) fs) = 0) \<and>
         upload_fit_file_to_garmin Uploaded fs' (Some new_file_path) = True \<and>
         upload_fit_file_to_garmin Raises_GarthHTTPError fs' (Some new_file_path) = False \<and>
         upload_fit_file_to_garmin Raises_Exception fs' (Some new_file_path) = False"
proof -
  have "contents fs' new_file_path \<noteq> None"
    using assms(6)
    by (auto simp: cleanup_and_save_fit_file_def cleanup_fit_file_def to_file_def Let_def
        split: option.splits sum.splits if_splits prod.splits)
  then show ?thesis
    using assms
    by (auto simp: main_def upload_fit_file_to_garmin_def path_exists_def)
qed

lemma cleanup_and_save_demo:
  "cleanup_and_save_fit_file posix_platform demo_codec demo_stamp (demo_fs demo_file)
     (Some data_dir) (Some backup_dir) =
   (Some demo_output,
    snd (cleanup_and_save_fit_file posix_platform demo_codec demo_stamp (demo_fs demo_file)
      (Some data_dir) (Some backup_dir)))"
proof -
  have "fst (cleanup_and_save_fit_file posix_platform demo_codec demo_stamp (demo_fs demo_file)
      (Some data_dir) (Some backup_dir)) = Some demo_output"
    by code_simp
  then show ?thesis
    by (metis prod.collapse)
qed

theorem main_ignores_upload_result_witness:
  "ensure_packages demo_env \<and> import_required_modules demo_env \<and>
   get_fitfile_location demo_env = Some data_dir \<and>
   get_backup_path demo_env = Some backup_dir \<and> authenticate_to_garmin demo_env \<and>
   fst (main (demo_env\<lparr>garth_upload := Uploaded\<rparr>) (demo_fs demo_file)) = 0 \<and>
   fst (main (demo_env\<lparr>garth_upload := Raises_GarthHTTPError\<rparr>) (demo_fs demo_file)) = 0 \<and>
   fst (main (demo_env\<lparr>garth_upload := Raises_Exception\<rparr>) (demo_fs demo_file)) = 0"
proof -
  have h: "ensure_packages demo_env" "import_required_modules demo_env"
    "get_fitfile_location demo_env = Some data_dir"
    "get_backup_path demo_env = Some backup_dir" "authenticate_to_garmin demo_env"
    by (simp_all add: demo_env_def)
  have c: "cleanup_and_save_fit_file (os demo_env) (fit_tool demo_env) (now demo_env)
      (demo_fs demo_file) (Some data_dir) (Some backup_dir) =
      (Some demo_output,
       snd (cleanup_and_save_fit_file posix_platform demo_codec demo_stamp (demo_fs demo_file)
         (Some data_dir) (Some backup_dir)))"
    using cleanup_and_save_demo by (simp add: demo_env_def)
  from main_ignores_upload_result [OF h c, THEN conjunct1] h show ?thesis by simp
qed

section \<open>Unbound and bound local slots\<close>

lemma parse_descriptors_concat:
  "parse_descriptors (concat (map (\<lambda>(i, s, t). [i, s, t]) ds)) =
     map (\<lambda>(i, s, t). \<lparr>field_id = i, field_size = unat s, base_type = t\<rparr>) ds"
  by (induction ds) auto

lemma length_concat_descriptors:
  "length (concat (map (\<lambda>(i, s, t). [i, s, t]) (ds :: (byte \<times> byte \<times> byte) list))) =
     3 * length ds"
  by (induction ds) auto

lemma unat_count: "n < 256 \<Longrightarrow> unat (of_nat n :: byte) = n"
  by (simp add: unat_of_nat)

lemma field_size_descriptors:
  "sum_list (map field_size
     (map (\<lambda>(i, s, t). \<lparr>field_id = i, field_size = unat s, base_type = t\<rparr>) ds)) =
   sum_list (map (\<lambda>(i, s, t). unat s) ds)"
  by (induction ds) auto

text \<open>
  C8. A Data record whose local slot has no definition bound fails with
  \<open>UnknownLocalType\<close>; a Definition record followed at once by a Data record of the same
  slot and of the declared length decodes to the message of that definition.
\<close>

theorem unbound_slot_fails_bound_slot_decodes:
  "(\<not> bit h 7 \<and> \<not> bit h 6 \<and> lookup reg (unat (h AND 15)) = None \<longrightarrow>
      decode_records pf reg (h # rest) = Inl UnknownLocalType) \<and>
   (\<not> bit hdef 7 \<and> bit hdef 6 \<and> \<not> bit hdat 7 \<and> \<not> bit hdat 6 \<and> hdat AND 15 = hdef AND 15 \<and>
    length ds < 256 \<and> length body = sum_list (map (\<lambda>(i, s, t). unat s) ds) \<longrightarrow>
      decode_records pf reg
        ([hdef, reserved, order, k0, k1, of_nat (length ds)] @
         concat (map (\<lambda>(i, s, t). [i, s, t]) ds) @ [hdat] @ body) =
      Inr [decode_data pf
             (parse_definition (unat (hdef AND 15)) order k0 k1
                (concat (map (\<lambda>(i, s, t). [i, s, t]) ds)))
             body])"
proof (intro conjI impI)
  assume "\<not> bit h 7 \<and> \<not> bit h 6 \<and> lookup reg (unat (h AND 15)) = None"
  then show "decode_records pf reg (h # rest) = Inl UnknownLocalType"
    by simp
next
  let ?raw = "concat (map (\<lambda>(i, s, t). [i, s, t]) ds)"
  let ?d = "parse_definition (unat (hdef AND 15)) order k0 k1 ?raw"
  let ?reg = "bind reg (unat (hdef AND 15)) ?d"
  assume a: "\<not> bit hdef 7 \<and> bit hdef 6 \<and> \<not> bit hdat 7 \<and> \<not> bit hdat 6 \<and> hdat AND 15 = hdef AND 15 \<and>
    length ds < 256 \<and> length body = sum_list (map (\<lambda>(i, s, t). unat s) ds)"
  then have n: "unat (of_nat (length ds) :: byte) = length ds"
    by (simp add: unat_count)
  have len: "length ?raw = 3 * length ds"
    by (rule length_concat_descriptors)
  have total: "total_size ?d = length body"
    using a
    by (simp only: total_size_def parse_definition_def parse_descriptors_concat
        field_size_descriptors message_definition.simps)
  have data: "decode_records pf ?reg (hdat # body) = Inr [decode_data pf ?d body]"
    using a total by (simp add: lookup_def bind_def)
  have "decode_records pf reg
      (hdef # reserved # order # k0 # k1 # of_nat (length ds) # (?raw @ hdat # body)) =
      decode_records pf ?reg (hdat # body)"
    using a by (subst decode_records.simps(2)) (simp add: n len del: decode_records.simps)
  then show "decode_records pf reg
      ([hdef, reserved, order, k0, k1, of_nat (length ds)] @ ?raw @ [hdat] @ body) =
      Inr [decode_data pf ?d body]"
    using data by simp
qed


theorem unbound_slot_fails_bound_slot_decodes_witness:
  "decode_records demo_profile (\<lambda>slot. None) [3, 200, 0, 255] = Inl UnknownLocalType \<and>
   decode_records demo_profile (\<lambda>slot. None)
     [64, 0, 0, 20, 0, 2, 7, 2, 132, 13, 1, 1, 0, 200, 0, 255] =
   Inr [\<lparr>message_class = RecordMessage, field_values = [(7, Present 200), (13, Absent)]\<rparr>]"
proof -
  let ?ds = "[(7, 2, 132), (13, 1, 1)] :: (byte \<times> byte \<times> byte) list"
  let ?body = "[200, 0, 255] :: byte list"
  have h1: "\<not> bit (3 :: byte) 7 \<and> \<not> bit (3 :: byte) 6 \<and>
      lookup (\<lambda>slot. None) (unat ((3 :: byte) AND 15)) = None"
    by (simp add: lookup_def)
  have h2: "\<not> bit (64 :: byte) 7 \<and> bit (64 :: byte) 6 \<and> \<not> bit (0 :: byte) 7 \<and>
      \<not> bit (0 :: byte) 6 \<and> (0 :: byte) AND 15 = 64 AND 15 \<and> length ?ds < 256 \<and>
      length ?body = sum_list (map (\<lambda>(i, s, t). unat s) ?ds)"
    by simp
  have v: "decode_data demo_profile
      (parse_definition (unat ((64 :: byte) AND 15)) 0 20 0
         (concat (map (\<lambda>(i, s, t). [i, s, t]) ?ds))) ?body =
      \<lparr>message_class = RecordMessage, field_values = [(7, Present 200), (13, Absent)]\<rparr>"
    by code_simp
  note t = unbound_slot_fails_bound_slot_decodes
    [where h = 3 and reg = "\<lambda>slot. None" and pf = demo_profile and rest = "[200, 0, 255]"
       and hdef = 64 and hdat = 0 and ds = ?ds and body = ?body and reserved = 0
       and order = 0 and ?k0.0 = 20 and ?k1.0 = 0]
  from t h1 have a: "decode_records demo_profile (\<lambda>slot. None) [3, 200, 0, 255] =
      Inl UnknownLocalType"
    by blast
  from t h2 have "decode_records demo_profile (\<lambda>slot. None)
      ([64, 0, 0, 20, 0, of_nat (length ?ds)] @ concat (map (\<lambda>(i, s, t). [i, s, t]) ?ds) @
       [0] @ ?body) =
      Inr [decode_data demo_profile
             (parse_definition (unat ((64 :: byte) AND 15)) 0 20 0
                (concat (map (\<lambda>(i, s, t). [i, s, t]) ?ds))) ?body]"
    by blast
  then have "decode_records demo_profile (\<lambda>slot. None)
      [64, 0, 0, 20, 0, 2, 7, 2, 132, 13, 1, 1, 0, 200, 0, 255] =
      Inr [\<lparr>message_class = RecordMessage, field_values = [(7, Present 200), (13, Absent)]\<rparr>]"
    by (simp only: v) simp
  with a show ?thesis by simp
qed

end
